theory Spec2Isabelle
  imports Main "HOL-Library.Word" "HOL-Library.AList" "HOL-Library.Multiset"
begin

unbundle bit_operations_syntax

text \<open>
  The reconciliation watchers of the plugin manager: the ARP table watcher
  (\<^verbatim>\<open>arpsync/watcher.go\<close>), the conntrack table watcher (package \<^verbatim>\<open>conntracksync\<close>)
  and the veth utilities (\<^verbatim>\<open>vethsync/utils/utils.go\<close>). Each Go function is a HOL
  function of the same name; a loop \<^verbatim>\<open>for ... range xs\<close> inside a function \<open>f\<close> is the
  recursive function \<open>f_range\<close>, or is named after the variable it ranges over. What a
  function reads from the metadata service, the kernel and the container runtime is an
  argument; the kernel calls it makes are its result. The definitions come first, the
  properties after them.
\<close>

section \<open>Go runtime and standard library, as far as the watchers use them\<close>

text \<open>
  A Go call either returns or panics, and what it returns may carry an \<^verbatim>\<open>error\<close>.
  Both ways of failing are values of one type, so that a result is
  \<open>failure + 'a\<close>: \<open>Inl (Err msg)\<close> is a returned non-nil error and
  \<open>Inl (Panic msg)\<close> a run-time panic unwinding the goroutine.
\<close>

datatype failure = Err string | Panic string

text \<open>
  A Go \<^verbatim>\<open>map\<close> is an association list with distinct keys: \<^verbatim>\<open>m[k] = v\<close> is
  \<open>AList.update k v m\<close>, \<^verbatim>\<open>v, found := m[k]\<close> is \<open>map_of m k\<close>, \<^verbatim>\<open>len(m)\<close>
  is \<open>length m\<close>. Go leaves the order of \<^verbatim>\<open>range m\<close> unspecified; a map that the
  program receives and ranges over is given in the order of that iteration.
\<close>

type_synonym ('k, 'v) gomap = "('k \<times> 'v) list"

subsection \<open>strconv\<close>

fun index_of :: "char \<Rightarrow> string \<Rightarrow> nat option" where
  "index_of c [] = None"
| "index_of c (d # ds) = (if c = d then Some 0 else map_option Suc (index_of c ds))"

definition digitVal :: "char \<Rightarrow> nat option" where
  "digitVal c = index_of c ''0123456789''"

fun decimal :: "nat \<Rightarrow> string \<Rightarrow> nat option" where
  "decimal acc [] = Some acc"
| "decimal acc (c # cs) =
     (case digitVal c of None \<Rightarrow> None | Some d \<Rightarrow> decimal (acc * 10 + d) cs)"

datatype NumError = ErrSyntax | ErrRange

text \<open>
  \<^verbatim>\<open>strconv.Atoi\<close> for the 64-bit \<^verbatim>\<open>int\<close>: an optional sign, then one or more
  decimal digits, the value within \<open>-2^63 .. 2^63 - 1\<close>.
\<close>

definition Atoi :: "string \<Rightarrow> NumError + int" where
  "Atoi s =
     (case s of
        [] \<Rightarrow> Inl ErrSyntax
      | c # r \<Rightarrow>
          let neg = (c = CHR ''-'');
              body = (if c = CHR ''+'' \<or> c = CHR ''-'' then r else s)
          in if body = [] then Inl ErrSyntax
             else (case decimal 0 body of
                     None \<Rightarrow> Inl ErrSyntax
                   | Some un \<Rightarrow>
                       if \<not> neg \<and> un \<ge> 2 ^ 63 then Inl ErrRange
                       else if neg \<and> un > 2 ^ 63 then Inl ErrRange
                       else Inr (if neg then - int un else int un)))"

fun udigits :: "nat \<Rightarrow> string" where
  "udigits n =
     (if n < 10 then [''0123456789'' ! n]
      else udigits (n div 10) @ [''0123456789'' ! (n mod 10)])"

declare udigits.simps [simp del]

text \<open>\<^verbatim>\<open>strconv.Itoa\<close>: the decimal form, with a leading minus sign below zero.\<close>

definition Itoa :: "int \<Rightarrow> string" where
  "Itoa i = (if i < 0 then CHR ''-'' # udigits (nat (- i)) else udigits (nat i))"

subsection \<open>strings\<close>

text \<open>\<^verbatim>\<open>strings.Split(s, sep)\<close> for a separator of one byte; \<open>Split [] sep = [[]]\<close> as in Go.\<close>

fun Split :: "string \<Rightarrow> char \<Rightarrow> string list" where
  "Split [] sep = [[]]"
| "Split (c # cs) sep =
     (if c = sep then [] # Split cs sep
      else (case Split cs sep of
              [] \<Rightarrow> [[c]]
            | x # xs \<Rightarrow> (c # x) # xs))"

definition HasPrefix :: "string \<Rightarrow> string \<Rightarrow> bool" where
  "HasPrefix s pre = (length pre \<le> length s \<and> take (length pre) s = pre)"

subsection \<open>time\<close>

text \<open>
  \<^verbatim>\<open>time.Duration\<close> is an \<^verbatim>\<open>int64\<close> count of nanoseconds; its arithmetic wraps.
  \<open>seconds n\<close> is \<^verbatim>\<open>time.Duration(n) * time.Second\<close>.
\<close>

type_synonym Duration = "64 word"

definition Second :: Duration where
  "Second = 1000000000"

definition seconds :: "int \<Rightarrow> Duration" where
  "seconds n = word_of_int n * Second"

section \<open>Starting the watchers\<close>

text \<open>\<^verbatim>\<open>arpsync.DefaultSyncInterval\<close> and \<^verbatim>\<open>conntracksync.DefaultSyncInterval\<close>.\<close>

definition arpsync_DefaultSyncInterval :: int where
  "arpsync_DefaultSyncInterval = 120"

definition conntracksync_DefaultSyncInterval :: int where
  "conntracksync_DefaultSyncInterval = 120"

record 'mc ARPTableWatcher =
  atw_syncInterval :: Duration
  atw_mc :: 'mc

record 'mc ConntrackTableWatcher =
  ctw_syncInterval :: Duration
  ctw_mc :: 'mc

text \<open>
  \<^verbatim>\<open>Watch\<close> builds the watcher and starts its loop on a goroutine; the value here is
  the watcher the loop runs with.
\<close>

definition arpsync_Watch :: "string \<Rightarrow> 'mc \<Rightarrow> 'mc ARPTableWatcher" where
  "arpsync_Watch syncIntervalStr mc =
     (let syncInterval =
        (case Atoi syncIntervalStr of
           Inr i \<Rightarrow> i
         | Inl err \<Rightarrow> arpsync_DefaultSyncInterval)
      in \<lparr>atw_syncInterval = seconds syncInterval, atw_mc = mc\<rparr>)"

definition conntracksync_Watch :: "string \<Rightarrow> 'mc \<Rightarrow> 'mc ConntrackTableWatcher" where
  "conntracksync_Watch syncIntervalStr mc =
     (let syncInterval =
        (case Atoi syncIntervalStr of
           Inr i \<Rightarrow> i
         | Inl err \<Rightarrow> conntracksync_DefaultSyncInterval)
      in \<lparr>ctw_syncInterval = seconds syncInterval, ctw_mc = mc\<rparr>)"

text \<open>
  Modelled from the spec: the veth watcher's \<^verbatim>\<open>Watch\<close> and its
  \<^verbatim>\<open>DefaultSyncInterval\<close> are in package \<^verbatim>\<open>vethsync\<close>, which is not among the
  sources. Section 4.9: the interval is parsed from a string; unparsable or empty falls
  back to the watcher's default. The default is the parameter \<open>DefaultSyncInterval\<close>.
\<close>

definition vethsync_Watch_interval :: "int \<Rightarrow> string \<Rightarrow> Duration" where
  "vethsync_Watch_interval DefaultSyncInterval syncIntervalStr =
     seconds (case Atoi syncIntervalStr of
                Inr i \<Rightarrow> i
              | Inl err \<Rightarrow> DefaultSyncInterval)"

section \<open>The data the watchers read\<close>

subsection \<open>rancher-metadata\<close>

text \<open>
  A decoded JSON value behind Go's \<^verbatim>\<open>interface{}\<close>: the nil interface, a string, a
  \<^verbatim>\<open>map[string]interface{}\<close> (in the order a \<^verbatim>\<open>range\<close> visits it), or a value of
  another dynamic type. Go does not specify the order in which \<^verbatim>\<open>range\<close> visits a map,
  and it need not be the same from one \<^verbatim>\<open>range\<close> to the next: the same map is a
  list here for one \<^verbatim>\<open>range\<close> and may be any reordering of it for another.
\<close>

datatype iface = JNil | JString string | JMap "(string \<times> iface) list" | JOther

text \<open>\<^verbatim>\<open>m[k]\<close> on a \<^verbatim>\<open>map[string]interface{}\<close>: the nil interface for a missing key.\<close>

definition lookup :: "(string \<times> iface) list \<Rightarrow> string \<Rightarrow> iface" where
  "lookup m k = (case map_of m k of None \<Rightarrow> JNil | Some v \<Rightarrow> v)"

text \<open>The type assertions \<^verbatim>\<open>v.(map[string]interface{})\<close> and \<^verbatim>\<open>v.(string)\<close>, with their \<^verbatim>\<open>ok\<close>.\<close>

fun asMap :: "iface \<Rightarrow> (string \<times> iface) list option" where
  "asMap (JMap m) = Some m"
| "asMap v = None"

fun asString :: "iface \<Rightarrow> string option" where
  "asString (JString s) = Some s"
| "asString v = None"

text \<open>The same assertions with \<^verbatim>\<open>ok\<close> discarded: the zero value when they fail.\<close>

definition asMap0 :: "iface \<Rightarrow> (string \<times> iface) list" where
  "asMap0 v = (case asMap v of None \<Rightarrow> [] | Some m \<Rightarrow> m)"

definition asString0 :: "iface \<Rightarrow> string" where
  "asString0 v = (case asString v of None \<Rightarrow> [] | Some s \<Rightarrow> s)"

record Host =
  Host_UUID :: string

record Network =
  Network_UUID :: string
  Network_Metadata :: "(string \<times> iface) list"

record Container =
  PrimaryIp :: string
  PrimaryMacAddress :: string
  HostUUID :: string
  NetworkUUID :: string
  Ports :: "string list"

record Service =
  Kind :: string
  Service_Name :: string
  PrimaryServiceName :: string
  Containers :: "Container list"

text \<open>
  The metadata client, by what its calls return during one reconciliation step.
\<close>

record MetadataClient =
  GetNetworks :: "failure + Network list"
  GetSelfHost :: "failure + Host"
  GetServices :: "failure + Service list"
  GetContainers :: "failure + Container list"

subsection \<open>netlink\<close>

record Link =
  Index :: int
  Link_Name :: string
  MasterIndex :: int
  ParentIndex :: int

text \<open>
  \<^verbatim>\<open>netlink.Neigh\<close>. The library declares \<^verbatim>\<open>State\<close> (the NUD state) and \<^verbatim>\<open>Type\<close>
  as two fields; the addresses are of package \<^verbatim>\<open>net\<close> and stay abstract.
\<close>

record ('ip, 'mac) Neigh =
  LinkIndex :: int
  Family :: int
  State :: int
  Type :: int
  Flags :: int
  IP :: 'ip
  HardwareAddr :: 'mac

definition NUD_REACHABLE :: int where
  "NUD_REACHABLE = 2"

text \<open>
  The kernel as one step reads it: \<^verbatim>\<open>netlink.LinkList()\<close>, \<^verbatim>\<open>netlink.LinkByName\<close>,
  and \<^verbatim>\<open>netlink.NeighList(0, netlink.FAMILY_V4)\<close>.
\<close>

record ('ip, 'mac) Kernel =
  LinkList :: "failure + Link list"
  LinkByName :: "string \<Rightarrow> failure + Link"
  NeighList :: "failure + ('ip, 'mac) Neigh list"

subsection \<open>Package net\<close>

text \<open>
  The functions of Go's package \<^verbatim>\<open>net\<close> that the ARP watcher calls are parameters of
  the model: \<^verbatim>\<open>net.ParseCIDR\<close> (its network), \<^verbatim>\<open>IPNet.Contains\<close>, \<^verbatim>\<open>IP.String\<close>,
  \<^verbatim>\<open>net.ParseMAC\<close> and \<^verbatim>\<open>HardwareAddr.String\<close>.
\<close>

record ('ip, 'mac, 'net) NetPkg =
  ParseCIDR :: "string \<Rightarrow> failure + 'net"
  Contains :: "'net \<Rightarrow> 'ip \<Rightarrow> bool"
  IP_String :: "'ip \<Rightarrow> string"
  ParseMAC :: "string \<Rightarrow> failure + 'mac"
  HardwareAddr_String :: "'mac \<Rightarrow> string"

subsection \<open>Package net on IPv4 and EUI-48 addresses\<close>

text \<open>
  The same functions as Go's package \<^verbatim>\<open>net\<close> computes them, for running the model on
  concrete tables: addresses are byte strings, \<^verbatim>\<open>net.ParseMAC\<close> and
  \<^verbatim>\<open>HardwareAddr.String\<close> in full, the IP functions on 4-byte IPv4 addresses, which
  are what \<^verbatim>\<open>NeighList(0, FAMILY_V4)\<close> returns.
\<close>

definition hexVal :: "char \<Rightarrow> nat option" where
  "hexVal c =
     (case index_of c ''0123456789abcdef'' of
        Some v \<Rightarrow> Some v
      | None \<Rightarrow> map_option (\<lambda>v. v + 10) (index_of c ''ABCDEF''))"

text \<open>
  \<^verbatim>\<open>xtoi2(s, e)\<close>: two hexadecimal digits, followed by the byte \<open>e\<close> if anything
  follows.
\<close>

fun xtoi2 :: "string \<Rightarrow> char \<Rightarrow> 8 word option" where
  "xtoi2 (a # b # rest) e =
     (if rest \<noteq> [] \<and> hd rest \<noteq> e then None
      else (case (hexVal a, hexVal b) of
              (Some x, Some y) \<Rightarrow> Some (of_nat (16 * x + y))
            | _ \<Rightarrow> None))"
| "xtoi2 s e = None"

fun colon_bytes :: "nat \<Rightarrow> string \<Rightarrow> char \<Rightarrow> 8 word list option" where
  "colon_bytes 0 s e = Some []"
| "colon_bytes (Suc n) s e =
     (case xtoi2 s e of
        None \<Rightarrow> None
      | Some b \<Rightarrow> map_option ((#) b) (colon_bytes n (drop 3 s) e))"

fun dot_bytes :: "nat \<Rightarrow> string \<Rightarrow> char \<Rightarrow> 8 word list option" where
  "dot_bytes 0 s e = Some []"
| "dot_bytes (Suc n) s e =
     (case (xtoi2 (take 2 s) e, xtoi2 (drop 2 s) e) of
        (Some a, Some b) \<Rightarrow> map_option (\<lambda>r. a # b # r) (dot_bytes n (drop 5 s) e)
      | _ \<Rightarrow> None)"

definition go_ParseMAC :: "string \<Rightarrow> failure + 8 word list" where
  "go_ParseMAC s =
     (let bad = Inl (Err ''invalid MAC address'') in
      if length s < 14 then bad
      else if s ! 2 = CHR '':'' \<or> s ! 2 = CHR ''-'' then
        (if (length s + 1) mod 3 \<noteq> 0 then bad
         else let n = (length s + 1) div 3 in
           if n \<noteq> 6 \<and> n \<noteq> 8 \<and> n \<noteq> 20 then bad
           else (case colon_bytes n s (s ! 2) of None \<Rightarrow> bad | Some hw \<Rightarrow> Inr hw))
      else if s ! 4 = CHR ''.'' then
        (if (length s + 1) mod 5 \<noteq> 0 then bad
         else let n = 2 * (length s + 1) div 5 in
           if n \<noteq> 6 \<and> n \<noteq> 8 \<and> n \<noteq> 20 then bad
           else (case dot_bytes (n div 2) s (s ! 4) of None \<Rightarrow> bad | Some hw \<Rightarrow> Inr hw))
      else bad)"

definition hex2 :: "8 word \<Rightarrow> string" where
  "hex2 b = [''0123456789abcdef'' ! unat (drop_bit 4 b), ''0123456789abcdef'' ! unat (b AND 15)]"

fun go_HardwareAddr_String :: "8 word list \<Rightarrow> string" where
  "go_HardwareAddr_String [] = []"
| "go_HardwareAddr_String [b] = hex2 b"
| "go_HardwareAddr_String (b # bs) = hex2 b @ CHR '':'' # go_HardwareAddr_String bs"

definition go_IP_String :: "8 word list \<Rightarrow> string" where
  "go_IP_String ip =
     (case ip of
        [] \<Rightarrow> ''<nil>''
      | [a, b, c, d] \<Rightarrow>
          Itoa (uint a) @ CHR ''.'' # Itoa (uint b) @ CHR ''.'' # Itoa (uint c) @
          CHR ''.'' # Itoa (uint d)
      | _ \<Rightarrow> ''?'')"

text \<open>An \<^verbatim>\<open>IPNet\<close>: the network number and the mask.\<close>

type_synonym IPNet = "8 word list \<times> 8 word list"

definition go_Contains :: "IPNet \<Rightarrow> 8 word list \<Rightarrow> bool" where
  "go_Contains n ip =
     (length (fst n) = 4 \<and> length (snd n) = 4 \<and> length ip = 4 \<and>
      map2 (AND) (fst n) (snd n) = map2 (AND) ip (snd n))"

definition octet :: "string \<Rightarrow> 8 word option" where
  "octet s =
     (if s = [] \<or> 3 < length s \<or> (1 < length s \<and> hd s = CHR ''0'') then None
      else (case decimal 0 s of
              None \<Rightarrow> None
            | Some v \<Rightarrow> if v \<le> 255 then Some (of_nat v) else None))"

definition parseIPv4 :: "string \<Rightarrow> 8 word list option" where
  "parseIPv4 s =
     (case map octet (Split s CHR ''.'') of
        [Some a, Some b, Some c, Some d] \<Rightarrow> Some [a, b, c, d]
      | _ \<Rightarrow> None)"

definition maskByte :: "nat \<Rightarrow> 8 word" where
  "maskByte k = (if 8 \<le> k then 255 else push_bit (8 - k) 255)"

definition CIDRMask :: "nat \<Rightarrow> 8 word list" where
  "CIDRMask n = [maskByte n, maskByte (n - 8), maskByte (n - 16), maskByte (n - 24)]"

definition go_ParseCIDR :: "string \<Rightarrow> failure + IPNet" where
  "go_ParseCIDR s =
     (let bad = Inl (Err ''invalid CIDR address'');
          addr = takeWhile (\<lambda>c. c \<noteq> CHR ''/'') s;
          rest = dropWhile (\<lambda>c. c \<noteq> CHR ''/'') s
      in if rest = [] then bad
         else (case (parseIPv4 addr, decimal 0 (tl rest)) of
                 (Some ip, Some n) \<Rightarrow>
                   if tl rest = [] \<or> 32 < n then bad
                   else Inr (map2 (AND) ip (CIDRMask n), CIDRMask n)
               | _ \<Rightarrow> bad))"

definition gonet :: "(8 word list, 8 word list, IPNet) NetPkg" where
  "gonet =
     \<lparr>ParseCIDR = go_ParseCIDR,
      Contains = go_Contains,
      IP_String = go_IP_String,
      ParseMAC = go_ParseMAC,
      HardwareAddr_String = go_HardwareAddr_String\<rparr>"

section \<open>arpsync\<close>

fun getBridgeInfo_range :: "(string \<times> iface) list \<Rightarrow> failure + string \<times> string" where
  "getBridgeInfo_range [] = Inl (Err ''arpsync: couldn't find bridge info'')"
| "getBridgeInfo_range ((name, file) # conf) =
     (let props = asMap0 file;
          cniType = asString0 (lookup props ''type'');
          checkBridge = asString0 (lookup props ''bridge'');
          checkBridgeSubnet = asString0 (lookup props ''bridgeSubnet'')
      in if cniType = ''rancher-bridge'' then
           (if checkBridge \<noteq> [] then
              (if checkBridgeSubnet \<noteq> [] then Inr (checkBridge, checkBridgeSubnet)
               else Inl (Err ''error: bridgeSubnet is empty in CNI config''))
            else Inl (Err ''error: bridge is empty in CNI config''))
         else getBridgeInfo_range conf)"

definition getBridgeInfo :: "Network \<Rightarrow> failure + string \<times> string" where
  "getBridgeInfo network =
     getBridgeInfo_range (asMap0 (lookup (Network_Metadata network) ''cniConfig''))"

fun buildContainersMap_range ::
  "Container list \<Rightarrow> Network \<Rightarrow> (string, Container) gomap \<Rightarrow> (string, Container) gomap" where
  "buildContainersMap_range [] network containersMap = containersMap"
| "buildContainersMap_range (aContainer # containers) network containersMap =
     (if \<not> (PrimaryIp aContainer \<noteq> [] \<and> NetworkUUID aContainer = Network_UUID network)
      then buildContainersMap_range containers network containersMap
      else buildContainersMap_range containers network
             (AList.update (PrimaryIp aContainer) aContainer containersMap))"

definition buildContainersMap :: "Container list \<Rightarrow> Network \<Rightarrow> (string, Container) gomap" where
  "buildContainersMap containers network = buildContainersMap_range containers network []"

text \<open>
  The two loops over the services and their containers: the MAC address of the
  network driver's container on this host, and the networks such containers are on.
\<close>

fun driverContainers_range ::
  "Host \<Rightarrow> Container list \<Rightarrow> string \<times> (string, bool) gomap \<Rightarrow> string \<times> (string, bool) gomap" where
  "driverContainers_range host [] acc = acc"
| "driverContainers_range host (aContainer # rest) (networkDriverMacAddress, localNetworks) =
     (if HostUUID aContainer = Host_UUID host
      then driverContainers_range host rest
             (PrimaryMacAddress aContainer, AList.update (NetworkUUID aContainer) True localNetworks)
      else driverContainers_range host rest (networkDriverMacAddress, localNetworks))"

fun services_range ::
  "Host \<Rightarrow> Service list \<Rightarrow> string \<times> (string, bool) gomap \<Rightarrow> string \<times> (string, bool) gomap" where
  "services_range host [] acc = acc"
| "services_range host (service # services) acc =
     (if \<not> (Kind service = ''networkDriverService'' \<and>
             Service_Name service = PrimaryServiceName service)
      then services_range host services acc
      else services_range host services (driverContainers_range host (Containers service) acc))"

text \<open>The first network that is a local one; the zero \<^verbatim>\<open>Network\<close> when there is none.\<close>

fun localNetwork_range :: "Network list \<Rightarrow> (string, bool) gomap \<Rightarrow> Network" where
  "localNetwork_range [] localNetworks = \<lparr>Network_UUID = [], Network_Metadata = []\<rparr>"
| "localNetwork_range (aNetwork # networks) localNetworks =
     (case map_of localNetworks (Network_UUID aNetwork) of
        Some ok \<Rightarrow> aNetwork
      | None \<Rightarrow> localNetwork_range networks localNetworks)"

text \<open>
  The body of the loop over the ARP table, for one entry: the entry handed to
  \<^verbatim>\<open>netlink.NeighSet\<close>, if the body calls it. A failure of \<^verbatim>\<open>NeighSet\<close> is only logged.
\<close>

definition syncEntry ::
  "('ip, 'mac, 'net) NetPkg \<Rightarrow> Host \<Rightarrow> string \<Rightarrow> int \<Rightarrow> 'net \<Rightarrow> (string, Container) gomap \<Rightarrow>
     ('ip, 'mac) Neigh \<Rightarrow> ('ip, 'mac) Neigh option" where
  "syncEntry net host networkDriverMacAddress bridgeLinkIndex bridgeSubnet containersMap aEntry =
     (if \<not> (LinkIndex aEntry = bridgeLinkIndex \<and> Contains net bridgeSubnet (IP aEntry))
      then None
      else
        (case map_of containersMap (IP_String net (IP aEntry)) of
           Some container \<Rightarrow>
             if HostUUID container = Host_UUID host then
               (if PrimaryMacAddress container \<noteq> HardwareAddr_String net (HardwareAddr aEntry) then
                  (case ParseMAC net (PrimaryMacAddress container) of
                     Inl err \<Rightarrow> None
                   | Inr newHardwareAddr \<Rightarrow>
                       Some (aEntry\<lparr>HardwareAddr := newHardwareAddr, Type := NUD_REACHABLE\<rparr>))
                else None)
             else
               (if HardwareAddr_String net (HardwareAddr aEntry) \<noteq> networkDriverMacAddress then
                  (case ParseMAC net networkDriverMacAddress of
                     Inl err \<Rightarrow> None
                   | Inr newHardwareAddr \<Rightarrow>
                       Some (aEntry\<lparr>HardwareAddr := newHardwareAddr, Type := NUD_REACHABLE\<rparr>))
                else None)
         | None \<Rightarrow> None))"

text \<open>The loop: the \<^verbatim>\<open>NeighSet\<close> calls of one step, in the order they are made.\<close>

fun syncEntries ::
  "('ip, 'mac, 'net) NetPkg \<Rightarrow> Host \<Rightarrow> string \<Rightarrow> int \<Rightarrow> 'net \<Rightarrow> (string, Container) gomap \<Rightarrow>
     ('ip, 'mac) Neigh list \<Rightarrow> ('ip, 'mac) Neigh list" where
  "syncEntries net host networkDriverMacAddress bridgeLinkIndex bridgeSubnet containersMap [] = []"
| "syncEntries net host networkDriverMacAddress bridgeLinkIndex bridgeSubnet containersMap
     (aEntry # entries) =
     (case syncEntry net host networkDriverMacAddress bridgeLinkIndex bridgeSubnet containersMap
             aEntry of
        None \<Rightarrow>
          syncEntries net host networkDriverMacAddress bridgeLinkIndex bridgeSubnet containersMap
            entries
      | Some newEntry \<Rightarrow>
          newEntry #
          syncEntries net host networkDriverMacAddress bridgeLinkIndex bridgeSubnet containersMap
            entries)"

text \<open>
  What a step has in hand when it reaches the ARP table: the self host, the driver's
  MAC address, the bridge's link index, the bridge subnet and the map from IP address to
  container.
\<close>

record 'net arp_view =
  av_host :: Host
  av_networkDriverMacAddress :: string
  av_bridgeLinkIndex :: int
  av_bridgeSubnet :: 'net
  av_containersMap :: "(string, Container) gomap"

text \<open>
  \<^verbatim>\<open>doSync\<close> up to the loop: each call in the order of the source, each error returned
  at once. The result is the view together with the ARP table read.
\<close>

definition arpsync_prepare ::
  "('ip, 'mac, 'net) NetPkg \<Rightarrow> MetadataClient \<Rightarrow> ('ip, 'mac) Kernel \<Rightarrow>
     failure + 'net arp_view \<times> ('ip, 'mac) Neigh list" where
  "arpsync_prepare net mc nl =
     (case GetNetworks mc of Inl err \<Rightarrow> Inl err | Inr networks \<Rightarrow>
      case GetSelfHost mc of Inl err \<Rightarrow> Inl err | Inr host \<Rightarrow>
      case GetServices mc of Inl err \<Rightarrow> Inl err | Inr services \<Rightarrow>
      case services_range host services ([], []) of (networkDriverMacAddress, localNetworks) \<Rightarrow>
      if length localNetworks = 0 then Inl (Err ''couldn't find any local networks'') else
      let localNetwork = localNetwork_range networks localNetworks in
      case getBridgeInfo localNetwork of Inl err \<Rightarrow> Inl err | Inr (bridge, bridgeSubnetStr) \<Rightarrow>
      case LinkByName nl bridge of Inl err \<Rightarrow> Inl err | Inr bridgeLink \<Rightarrow>
      case ParseCIDR net bridgeSubnetStr of Inl err \<Rightarrow> Inl err | Inr bridgeSubnet \<Rightarrow>
      case NeighList nl of Inl err \<Rightarrow> Inl err | Inr entries \<Rightarrow>
      case GetContainers mc of Inl err \<Rightarrow> Inl err | Inr containers \<Rightarrow>
      Inr (\<lparr>av_host = host,
            av_networkDriverMacAddress = networkDriverMacAddress,
            av_bridgeLinkIndex = Index bridgeLink,
            av_bridgeSubnet = bridgeSubnet,
            av_containersMap = buildContainersMap containers localNetwork\<rparr>,
           entries))"

text \<open>
  \<^verbatim>\<open>ARPTableWatcher.doSync\<close>: the error returned, or the \<^verbatim>\<open>NeighSet\<close> calls made
  before returning \<^verbatim>\<open>nil\<close>.
\<close>

definition arpsync_doSync ::
  "('ip, 'mac, 'net) NetPkg \<Rightarrow> MetadataClient \<Rightarrow> ('ip, 'mac) Kernel \<Rightarrow>
     failure + ('ip, 'mac) Neigh list" where
  "arpsync_doSync net mc nl =
     (case arpsync_prepare net mc nl of
        Inl err \<Rightarrow> Inl err
      | Inr (v, entries) \<Rightarrow>
          Inr (syncEntries net (av_host v) (av_networkDriverMacAddress v) (av_bridgeLinkIndex v)
                 (av_bridgeSubnet v) (av_containersMap v) entries))"

text \<open>
  The expected MAC address of a neighbour entry whose IP address is a container's, in
  the words of section 4.6: the container's own address when the container is on the
  self host, the driver's address otherwise.
\<close>

definition expectedMAC :: "Host \<Rightarrow> string \<Rightarrow> Container \<Rightarrow> string" where
  "expectedMAC host networkDriverMacAddress c =
     (if HostUUID c = Host_UUID host then PrimaryMacAddress c else networkDriverMacAddress)"


text \<open>
  For a view \<open>v\<close>: the call the loop body makes for an entry, the expected MAC address
  of a container, the filter of the loop (the entry is on the bridge and in its subnet),
  and the container the entry's IP address maps to.
\<close>

abbreviation entry_call ::
  "('ip, 'mac, 'net) NetPkg \<Rightarrow> 'net arp_view \<Rightarrow> ('ip, 'mac) Neigh \<Rightarrow> ('ip, 'mac) Neigh option" where
  "entry_call net v \<equiv>
     syncEntry net (av_host v) (av_networkDriverMacAddress v) (av_bridgeLinkIndex v)
       (av_bridgeSubnet v) (av_containersMap v)"

abbreviation expected_of :: "'net arp_view \<Rightarrow> Container \<Rightarrow> string" where
  "expected_of v \<equiv> expectedMAC (av_host v) (av_networkDriverMacAddress v)"

abbreviation on_bridge :: "('ip, 'mac, 'net) NetPkg \<Rightarrow> 'net arp_view \<Rightarrow> ('ip, 'mac) Neigh \<Rightarrow> bool" where
  "on_bridge net v e \<equiv>
     LinkIndex e = av_bridgeLinkIndex v \<and> Contains net (av_bridgeSubnet v) (IP e)"

abbreviation container_of ::
  "('ip, 'mac, 'net) NetPkg \<Rightarrow> 'net arp_view \<Rightarrow> ('ip, 'mac) Neigh \<Rightarrow> Container option" where
  "container_of net v e \<equiv> map_of (av_containersMap v) (IP_String net (IP e))"

text \<open>
  Modelled from the spec: the kernel's side of \<^verbatim>\<open>netlink.NeighSet\<close>. Section 4.1:
  neighbor_set(entry) is an upsert with the given LinkIndex, Ip and HardwareAddr. The
  neighbour table holds one entry per link and address; an entry for the same link and
  address is replaced by the one set, and a new entry is added when there is none.
\<close>

definition same_neigh :: "('ip, 'mac) Neigh \<Rightarrow> ('ip, 'mac) Neigh \<Rightarrow> bool" where
  "same_neigh a b = (LinkIndex a = LinkIndex b \<and> IP a = IP b)"

definition NeighSet_effect ::
  "('ip, 'mac) Neigh \<Rightarrow> ('ip, 'mac) Neigh list \<Rightarrow> ('ip, 'mac) Neigh list" where
  "NeighSet_effect n tab =
     (if \<exists>e \<in> set tab. same_neigh e n
      then map (\<lambda>e. if same_neigh e n then n else e) tab
      else tab @ [n])"

fun NeighSet_effects ::
  "('ip, 'mac) Neigh list \<Rightarrow> ('ip, 'mac) Neigh list \<Rightarrow> ('ip, 'mac) Neigh list" where
  "NeighSet_effects [] tab = tab"
| "NeighSet_effects (n # calls) tab = NeighSet_effects calls (NeighSet_effect n tab)"


section \<open>conntracksync\<close>

text \<open>
  An entry of \<^verbatim>\<open>conntrack.ListDNAT()\<close>, with the fields the watcher reads. Package
  \<^verbatim>\<open>conntrack\<close> is not among the sources; its list is an input and its
  \<^verbatim>\<open>CTEntryDelete\<close> a call the step makes.
\<close>

record CTEntry =
  OriginalDestinationIP :: string
  OriginalDestinationPort :: string
  Protocol :: string
  ReplySourceIP :: string

text \<open>Indexing a slice: \<^verbatim>\<open>xs[i]\<close> panics out of range.\<close>

definition at_index :: "'a list \<Rightarrow> nat \<Rightarrow> failure + 'a" where
  "at_index xs i =
     (if i < length xs then Inr (xs ! i) else Inl (Panic ''runtime error: index out of range''))"

fun ports_range ::
  "Container \<Rightarrow> string list \<Rightarrow> (string, Container) gomap \<Rightarrow> failure + (string, Container) gomap" where
  "ports_range aContainer [] containersMap = Inr containersMap"
| "ports_range aContainer (aPort # ports) containersMap =
     (let splits = Split aPort CHR '':'' in
      if length splits \<noteq> 3 then ports_range aContainer ports containersMap
      else
        let hostIP = splits ! 0;
            hostPort = splits ! 1
        in case at_index (Split (splits ! 2) CHR ''/'') 1 of
             Inl panic \<Rightarrow> Inl panic
           | Inr protocol \<Rightarrow>
               ports_range aContainer ports
                 (AList.update (hostIP @ '':'' @ hostPort @ ''/'' @ protocol) aContainer
                    containersMap))"

fun containers_range ::
  "Host \<Rightarrow> Container list \<Rightarrow> (string, Container) gomap \<Rightarrow> failure + (string, Container) gomap" where
  "containers_range host [] containersMap = Inr containersMap"
| "containers_range host (aContainer # containers) containersMap =
     (if \<not> (HostUUID aContainer = Host_UUID host \<and> length (Ports aContainer) > 0)
      then containers_range host containers containersMap
      else (case ports_range aContainer (Ports aContainer) containersMap of
              Inl panic \<Rightarrow> Inl panic
            | Inr containersMap' \<Rightarrow> containers_range host containers containersMap'))"

definition buildContainersMaps :: "MetadataClient \<Rightarrow> failure + (string, Container) gomap" where
  "buildContainersMaps mc =
     (case GetSelfHost mc of Inl err \<Rightarrow> Inl err | Inr host \<Rightarrow>
      case GetContainers mc of Inl err \<Rightarrow> Inl err | Inr containers \<Rightarrow>
      containers_range host containers [])"

text \<open>
  A published port of exactly three colon-separated fields whose third field has no
  slash: the port string on which the second element of the protocol split is missing.
\<close>

definition slashless_triple :: "string \<Rightarrow> bool" where
  "slashless_triple aPort =
     (length (Split aPort CHR '':'') = 3 \<and> CHR ''/'' \<notin> set (Split aPort CHR '':'' ! 2))"

text \<open>
  The body of the loop over the conntrack entries, with its two keys: whether
  \<^verbatim>\<open>CTEntryDelete\<close> is called on the entry. A failure of the call is only logged.
\<close>

definition specificKey :: "CTEntry \<Rightarrow> string" where
  "specificKey ctEntry =
     OriginalDestinationIP ctEntry @ '':'' @ OriginalDestinationPort ctEntry @ ''/'' @
     Protocol ctEntry"

definition genericKey :: "CTEntry \<Rightarrow> string" where
  "genericKey ctEntry = ''0.0.0.0:'' @ OriginalDestinationPort ctEntry @ ''/'' @ Protocol ctEntry"

definition ctEntry_deleted :: "(string, Container) gomap \<Rightarrow> CTEntry \<Rightarrow> bool" where
  "ctEntry_deleted containersMap ctEntry =
     (case map_of containersMap (specificKey ctEntry) of
        Some c \<Rightarrow> ReplySourceIP ctEntry \<noteq> PrimaryIp c
      | None \<Rightarrow>
          (case map_of containersMap (genericKey ctEntry) of
             None \<Rightarrow> False
           | Some c \<Rightarrow> ReplySourceIP ctEntry \<noteq> PrimaryIp c))"

fun ctEntries_range :: "(string, Container) gomap \<Rightarrow> CTEntry list \<Rightarrow> CTEntry list" where
  "ctEntries_range containersMap [] = []"
| "ctEntries_range containersMap (ctEntry # ctEntries) =
     (if ctEntry_deleted containersMap ctEntry
      then ctEntry # ctEntries_range containersMap ctEntries
      else ctEntries_range containersMap ctEntries)"

text \<open>
  \<^verbatim>\<open>ConntrackTableWatcher.doSync\<close>, given what \<^verbatim>\<open>conntrack.ListDNAT()\<close> returns:
  the failure, or the \<^verbatim>\<open>CTEntryDelete\<close> calls made before returning \<^verbatim>\<open>nil\<close>.
\<close>

definition conntracksync_doSync ::
  "MetadataClient \<Rightarrow> failure + CTEntry list \<Rightarrow> failure + CTEntry list" where
  "conntracksync_doSync mc ListDNAT =
     (case buildContainersMaps mc of Inl err \<Rightarrow> Inl err | Inr containersMap \<Rightarrow>
      case ListDNAT of Inl err \<Rightarrow> Inl err | Inr ctEntries \<Rightarrow>
      Inr (ctEntries_range containersMap ctEntries))"


section \<open>vethsync/utils\<close>

text \<open>
  \<^verbatim>\<open>getBridgeInfoFromCNIConfig\<close> returns both its values in every case: the bridge
  and the last error, \<open>None\<close> for \<^verbatim>\<open>nil\<close>. A failed assertion \<^verbatim>\<open>props["bridge"].(string)\<close>
  assigns the empty string to \<^verbatim>\<open>bridge\<close>.
\<close>

fun getBridgeInfoFromCNIConfig_range ::
  "(string \<times> iface) list \<Rightarrow> string \<times> failure option \<Rightarrow> string \<times> failure option" where
  "getBridgeInfoFromCNIConfig_range [] (bridge, lastErr) = (bridge, lastErr)"
| "getBridgeInfoFromCNIConfig_range ((name, config) # cniConf) (bridge, lastErr) =
     (case asMap config of
        None \<Rightarrow>
          getBridgeInfoFromCNIConfig_range cniConf
            (bridge, Some (Err ''error getting props from cni config''))
      | Some props \<Rightarrow>
          (case asString (lookup props ''bridge'') of
             None \<Rightarrow>
               getBridgeInfoFromCNIConfig_range cniConf
                 ([], Some (Err ''error getting bridge from cni config''))
           | Some b \<Rightarrow> getBridgeInfoFromCNIConfig_range cniConf (b, lastErr)))"

definition getBridgeInfoFromCNIConfig :: "(string \<times> iface) list \<Rightarrow> string \<times> failure option" where
  "getBridgeInfoFromCNIConfig cniConf = getBridgeInfoFromCNIConfig_range cniConf ([], None)"

text \<open>
  One iteration of the loop of \<^verbatim>\<open>getBridgeInfoFromCNIConfig\<close> on the pair of
  \<^verbatim>\<open>bridge\<close> and \<^verbatim>\<open>lastErr\<close>, for reasoning about the loop.
\<close>

definition cni_step :: "iface \<Rightarrow> string \<times> failure option \<Rightarrow> string \<times> failure option" where
  "cni_step config acc =
     (case asMap config of
        None \<Rightarrow> (fst acc, Some (Err ''error getting props from cni config''))
      | Some props \<Rightarrow>
          (case asString (lookup props ''bridge'') of
             None \<Rightarrow> ([], Some (Err ''error getting bridge from cni config''))
           | Some b \<Rightarrow> (b, snd acc)))"

text \<open>
  The \<^verbatim>\<open>bridge\<close> field of a plugin config, when the config is a mapping and the field
  a string; and a plugin config with its \<^verbatim>\<open>type\<close> field set to a given plugin type.
\<close>

definition bridge_of :: "iface \<Rightarrow> string option" where
  "bridge_of config =
     (case asMap config of None \<Rightarrow> None | Some props \<Rightarrow> asString (lookup props ''bridge''))"

fun with_type :: "string \<Rightarrow> iface \<Rightarrow> iface" where
  "with_type ty (JMap props) = JMap (AList.update ''type'' (JString ty) props)"
| "with_type ty v = v"

text \<open>The loops of \<^verbatim>\<open>GetHostViewVethMap\<close>, in the order of the source.\<close>

fun localBridges_range :: "Network list \<Rightarrow> (string, bool) gomap \<Rightarrow> (string, bool) gomap" where
  "localBridges_range [] localBridges = localBridges"
| "localBridges_range (n # localNetworks) localBridges =
     (case asMap (lookup (Network_Metadata n) ''cniConfig'') of
        None \<Rightarrow> localBridges_range localNetworks localBridges
      | Some cniConf \<Rightarrow>
          (case getBridgeInfoFromCNIConfig cniConf of
             (b, Some err) \<Rightarrow> localBridges_range localNetworks localBridges
           | (b, None) \<Rightarrow> localBridges_range localNetworks (AList.update b True localBridges)))"

fun localBridgesLinksMap_range ::
  "(string, bool) gomap \<Rightarrow> Link list \<Rightarrow> (int, Link) gomap \<Rightarrow> (int, Link) gomap" where
  "localBridgesLinksMap_range localBridges [] localBridgesLinksMap = localBridgesLinksMap"
| "localBridgesLinksMap_range localBridges (l # alllinks) localBridgesLinksMap =
     (case map_of localBridges (Link_Name l) of
        Some found \<Rightarrow>
          localBridgesLinksMap_range localBridges alllinks
            (AList.update (Index l) l localBridgesLinksMap)
      | None \<Rightarrow> localBridgesLinksMap_range localBridges alllinks localBridgesLinksMap)"

fun veths_range ::
  "string \<Rightarrow> (int, Link) gomap \<Rightarrow> Link list \<Rightarrow> (string, Link) gomap \<Rightarrow> (string, Link) gomap" where
  "veths_range vethPrefix localBridgesLinksMap [] veths = veths"
| "veths_range vethPrefix localBridgesLinksMap (l # alllinks) veths =
     (if \<not> HasPrefix (Link_Name l) vethPrefix
      then veths_range vethPrefix localBridgesLinksMap alllinks veths
      else (case map_of localBridgesLinksMap (MasterIndex l) of
              None \<Rightarrow> veths_range vethPrefix localBridgesLinksMap alllinks veths
            | Some found \<Rightarrow>
                veths_range vethPrefix localBridgesLinksMap alllinks
                  (AList.update (Itoa (Index l)) l veths)))"

text \<open>
  \<^verbatim>\<open>GetHostViewVethMap(vethPrefix, mc)\<close>. \<^verbatim>\<open>network.LocalNetworks(mc)\<close> is of a package
  that is not among the sources; what it returns, the local networks or an error, is
  the parameter \<open>LocalNetworks\<close>.
\<close>

definition GetHostViewVethMap ::
  "string \<Rightarrow> ('ip, 'mac) Kernel \<Rightarrow> failure + Network list \<Rightarrow> failure + (string, Link) gomap" where
  "GetHostViewVethMap vethPrefix nl LocalNetworks =
     (case LinkList nl of Inl err \<Rightarrow> Inl err | Inr alllinks \<Rightarrow>
      case LocalNetworks of Inl err \<Rightarrow> Inl err | Inr localNetworks \<Rightarrow>
      let localBridges = localBridges_range localNetworks [];
          localBridgesLinksMap = localBridgesLinksMap_range localBridges alllinks []
      in if length localBridgesLinksMap = 0
         then Inl (Err ''couldn't find any local bridge link'')
         else Inr (veths_range vethPrefix localBridgesLinksMap alllinks []))"

text \<open>
  The container runtime: \<^verbatim>\<open>dc.ContainerList\<close>, and \<^verbatim>\<open>network.EnterNS\<close> for a
  container id, which runs its callback inside the container's network namespace or
  fails. Inside, the callback has the namespace's \<^verbatim>\<open>netlink.LinkByName\<close>.
\<close>

record DockerContainer =
  ID :: string
  NetworkMode :: string

record DockerClient =
  ContainerList :: "failure + DockerContainer list"
  EnterNS :: "string \<Rightarrow> failure + (string \<Rightarrow> failure + Link)"

text \<open>The call of \<^verbatim>\<open>network.EnterNS\<close> with its callback: the \<^verbatim>\<open>vethIndex\<close>, or the error.\<close>

definition vethIndex_of :: "DockerClient \<Rightarrow> DockerContainer \<Rightarrow> failure + string" where
  "vethIndex_of dc aContainer =
     (case EnterNS dc (ID aContainer) of
        Inl err \<Rightarrow> Inl err
      | Inr ns_LinkByName \<Rightarrow>
          (case ns_LinkByName ''eth0'' of
             Inl err \<Rightarrow> Inl err
           | Inr link \<Rightarrow> Inr (Itoa (ParentIndex link))))"

fun containerVethIndices_range ::
  "DockerClient \<Rightarrow> DockerContainer list \<Rightarrow> (string, bool) gomap \<Rightarrow> (string, bool) gomap" where
  "containerVethIndices_range dc [] containerVethIndices = containerVethIndices"
| "containerVethIndices_range dc (aContainer # containers) containerVethIndices =
     (if NetworkMode aContainer = ''host''
      then containerVethIndices_range dc containers containerVethIndices
      else (case vethIndex_of dc aContainer of
              Inl err \<Rightarrow> containerVethIndices_range dc containers containerVethIndices
            | Inr vethIndex \<Rightarrow>
                containerVethIndices_range dc containers
                  (AList.update vethIndex True containerVethIndices)))"

definition GetContainersViewVethMapByEnteringNS ::
  "DockerClient \<Rightarrow> failure + (string, bool) gomap" where
  "GetContainersViewVethMapByEnteringNS dc =
     (case ContainerList dc of
        Inl err \<Rightarrow> Inl err
      | Inr containers \<Rightarrow> Inr (containerVethIndices_range dc containers []))"

fun GetDanglingVeths_range ::
  "(string, Link) gomap \<Rightarrow> (string, bool) gomap \<Rightarrow> (string, Link) gomap \<Rightarrow> (string, Link) gomap" where
  "GetDanglingVeths_range [] containerVethMap dangling = dangling"
| "GetDanglingVeths_range ((k, v) # hostVethMap) containerVethMap dangling =
     (case map_of containerVethMap k of
        None \<Rightarrow> GetDanglingVeths_range hostVethMap containerVethMap (AList.update k v dangling)
      | Some found \<Rightarrow> GetDanglingVeths_range hostVethMap containerVethMap dangling)"

text \<open>\<^verbatim>\<open>GetDanglingVeths\<close>: the map it returns; its error is always \<^verbatim>\<open>nil\<close>.\<close>

definition GetDanglingVeths ::
  "(string, Link) gomap \<Rightarrow> (string, bool) gomap \<Rightarrow> (string, Link) gomap" where
  "GetDanglingVeths hostVethMap containerVethMap =
     GetDanglingVeths_range hostVethMap containerVethMap []"

text \<open>
  \<^verbatim>\<open>CleanUpDanglingVeths\<close>: the links it calls \<^verbatim>\<open>netlink.LinkDel\<close> on. A failure of
  the call is only logged, and the function returns \<^verbatim>\<open>nil\<close>.
\<close>

fun CleanUpDanglingVeths :: "(string, Link) gomap \<Rightarrow> Link list" where
  "CleanUpDanglingVeths [] = []"
| "CleanUpDanglingVeths ((k, v) # dangling) = v # CleanUpDanglingVeths dangling"



section \<open>The metadata as a later step ranges over it\<close>






section \<open>The watcher loop\<close>

text \<open>
  \<^verbatim>\<open>syncLoop\<close> is the same in both watchers: sleep, \<^verbatim>\<open>doSync\<close>, log the error if one
  is returned, again, with no \<^verbatim>\<open>recover\<close> anywhere. The loop has no exit; it is run
  here on the ticks of a finite schedule, one environment per tick, and \<open>doSync\<close>
  is the watcher's step on the environment of the tick. A panic in the step unwinds
  the loop's goroutine, which ends the process.
\<close>

datatype 'c tick = Synced "'c list" | Logged string | Crashed string

fun syncLoop :: "('env \<Rightarrow> failure + 'c list) \<Rightarrow> 'env list \<Rightarrow> 'c tick list" where
  "syncLoop doSync [] = []"
| "syncLoop doSync (env # envs) =
     (case doSync env of
        Inr calls \<Rightarrow> Synced calls # syncLoop doSync envs
      | Inl (Err msg) \<Rightarrow> Logged msg # syncLoop doSync envs
      | Inl (Panic msg) \<Rightarrow> [Crashed msg])"

definition arpsync_syncLoop ::
  "('ip, 'mac, 'net) NetPkg \<Rightarrow> (MetadataClient \<times> ('ip, 'mac) Kernel) list \<Rightarrow>
     ('ip, 'mac) Neigh tick list" where
  "arpsync_syncLoop net = syncLoop (\<lambda>(mc, nl). arpsync_doSync net mc nl)"

definition conntracksync_syncLoop ::
  "(MetadataClient \<times> (failure + CTEntry list)) list \<Rightarrow> CTEntry tick list" where
  "conntracksync_syncLoop = syncLoop (\<lambda>(mc, ListDNAT). conntracksync_doSync mc ListDNAT)"


section \<open>Scenarios\<close>

text \<open>
  The hosts, containers and tables of section 8 of the specification, for running the
  model: the self host \<open>H\<close>, the other host \<open>H2\<close>, network \<open>N\<close> with bridge
  \<^verbatim>\<open>docker0\<close> (link index 3) and subnet \<^verbatim>\<open>10.42.0.0/16\<close>.
\<close>

abbreviation hostH :: Host where
  "hostH \<equiv> \<lparr>Host_UUID = ''H''\<rparr>"

abbreviation containerOn :: "string \<Rightarrow> string \<Rightarrow> string \<Rightarrow> string list \<Rightarrow> Container" where
  "containerOn h ip mac ports \<equiv>
     \<lparr>PrimaryIp = ip, PrimaryMacAddress = mac, HostUUID = h, NetworkUUID = ''N'', Ports = ports\<rparr>"

abbreviation publishing :: "string list \<Rightarrow> MetadataClient" where
  "publishing ports \<equiv>
     \<lparr>GetNetworks = Inr [], GetSelfHost = Inr hostH, GetServices = Inr [],
      GetContainers = Inr [containerOn ''H'' ''10.42.0.5'' ''02:aa:aa:aa:aa:05'' ports]\<rparr>"

abbreviation dnat :: "string \<Rightarrow> string \<Rightarrow> string \<Rightarrow> CTEntry" where
  "dnat ip port reply \<equiv>
     \<lparr>OriginalDestinationIP = ip, OriginalDestinationPort = port, Protocol = ''tcp'',
      ReplySourceIP = reply\<rparr>"

abbreviation networkN :: Network where
  "networkN \<equiv>
     \<lparr>Network_UUID = ''N'',
      Network_Metadata =
        [(''cniConfig'',
          JMap [(''10-rancher.conf'',
                 JMap [(''type'', JString ''rancher-bridge''),
                       (''bridge'', JString ''docker0''),
                       (''bridgeSubnet'', JString ''10.42.0.0/16'')])])]\<rparr>"

abbreviation driverService :: "string \<Rightarrow> Service" where
  "driverService mac \<equiv>
     \<lparr>Kind = ''networkDriverService'', Service_Name = ''ipsec'', PrimaryServiceName = ''ipsec'',
      Containers = [containerOn ''H'' ''10.42.0.2'' mac []]\<rparr>"

abbreviation metadataWith :: "string \<Rightarrow> Container list \<Rightarrow> MetadataClient" where
  "metadataWith drv containers \<equiv>
     \<lparr>GetNetworks = Inr [networkN], GetSelfHost = Inr hostH,
      GetServices = Inr [driverService drv], GetContainers = Inr containers\<rparr>"

abbreviation docker0 :: Link where
  "docker0 \<equiv> \<lparr>Index = 3, Link_Name = ''docker0'', MasterIndex = 0, ParentIndex = 0\<rparr>"

abbreviation kernelWith ::
  "Link list \<Rightarrow> (8 word list, 8 word list) Neigh list \<Rightarrow> (8 word list, 8 word list) Kernel" where
  "kernelWith links entries \<equiv>
     \<lparr>LinkList = Inr links,
      LinkByName = (\<lambda>name. case find (\<lambda>l. Link_Name l = name) links of
                             None \<Rightarrow> Inl (Err ''Link not found'')
                           | Some l \<Rightarrow> Inr l),
      NeighList = Inr entries\<rparr>"

abbreviation neigh :: "8 word list \<Rightarrow> 8 word list \<Rightarrow> (8 word list, 8 word list) Neigh" where
  "neigh ip mac \<equiv>
     \<lparr>LinkIndex = 3, Family = 2, State = 4, Type = 1, Flags = 0, IP = ip, HardwareAddr = mac\<rparr>"

abbreviation viewOf :: "string \<Rightarrow> (string, Container) gomap \<Rightarrow> IPNet arp_view" where
  "viewOf drv containersMap \<equiv>
     \<lparr>av_host = hostH, av_networkDriverMacAddress = drv, av_bridgeLinkIndex = 3,
      av_bridgeSubnet = ([10, 42, 0, 0], [255, 255, 0, 0]), av_containersMap = containersMap\<rparr>"

abbreviation veth :: "string \<Rightarrow> int \<Rightarrow> Link" where
  "veth name i \<equiv> \<lparr>Index = i, Link_Name = name, MasterIndex = 3, ParentIndex = 0\<rparr>"

abbreviation eth0_in :: "int \<Rightarrow> string \<Rightarrow> failure + Link" where
  "eth0_in parent \<equiv>
     (\<lambda>name. if name = ''eth0''
              then Inr \<lparr>Index = 2, Link_Name = ''eth0'', MasterIndex = 0, ParentIndex = parent\<rparr>
              else Inl (Err ''Link not found''))"

abbreviation dockerWith :: "int \<Rightarrow> DockerClient" where
  "dockerWith parent \<equiv>
     \<lparr>ContainerList = Inr [\<lparr>ID = ''c1'', NetworkMode = ''default''\<rparr>,
                            \<lparr>ID = ''c2'', NetworkMode = ''host''\<rparr>],
      EnterNS = (\<lambda>id. if id = ''c1'' then Inr (eth0_in parent)
                       else Inl (Err ''no such container''))\<rparr>"

text \<open>
  Two containers of the self host publishing host port 8080: one on every host address,
  one on the address \<^verbatim>\<open>10.0.0.1\<close> only.
\<close>

abbreviation publishingBoth :: MetadataClient where
  "publishingBoth \<equiv>
     \<lparr>GetNetworks = Inr [], GetSelfHost = Inr hostH, GetServices = Inr [],
      GetContainers =
        Inr [containerOn ''H'' ''10.42.0.5'' ''02:aa:aa:aa:aa:05'' [''0.0.0.0:8080:80/tcp''],
             containerOn ''H'' ''10.42.0.7'' ''02:aa:aa:aa:aa:07'' [''10.0.0.1:8080:80/tcp'']]\<rparr>"





section \<open>Interval configuration\<close>

lemma sint_seconds:
  assumes "- 9223372036 \<le> n" and "n \<le> 9223372036"
  shows "sint (seconds n) = n * 1000000000"
proof -
  define m where "m = n * 1000000000"
  have eq: "seconds n = (word_of_int m :: 64 word)"
    by (simp add: seconds_def Second_def m_def)
  have lo: "- (2 ^ 63) \<le> m" and hi: "m < 2 ^ 63"
    using assms by (simp_all add: m_def)
  have "sint (word_of_int m :: 64 word) = signed_take_bit 63 m"
    by (simp add: sint_sbintrunc')
  also have "\<dots> = m"
    by (rule signed_take_bit_int_eq_self) (use lo hi in simp_all)
  finally show ?thesis using eq by (simp add: m_def)
qed

lemma Watch_parsed:
  assumes "Atoi s = Inr i"
  shows "atw_syncInterval (arpsync_Watch s mc) = seconds i"
    and "ctw_syncInterval (conntracksync_Watch s mc') = seconds i"
    and "vethsync_Watch_interval d s = seconds i"
  using assms
  by (simp_all add: arpsync_Watch_def conntracksync_Watch_def vethsync_Watch_interval_def)

lemma Watch_unparsed:
  assumes "Atoi s = Inl e"
  shows "atw_syncInterval (arpsync_Watch s mc) = seconds 120"
    and "ctw_syncInterval (conntracksync_Watch s mc') = seconds 120"
    and "vethsync_Watch_interval d s = seconds d"
  using assms
  by (simp_all add: arpsync_Watch_def conntracksync_Watch_def vethsync_Watch_interval_def
      arpsync_DefaultSyncInterval_def conntracksync_DefaultSyncInterval_def)

text \<open>
  Claim C8, as stated, at the interval string \<^verbatim>\<open>9223372037\<close>: it parses as an integer,
  and the loop's interval is not that many seconds, since
  \<^verbatim>\<open>time.Duration(syncInterval) * time.Second\<close> wraps around in 64 bits and comes out
  negative.
\<close>

theorem Watch_interval_overflow_counterexample:
  "Atoi ''9223372037'' = Inr 9223372037 \<and>
   sint (atw_syncInterval (arpsync_Watch ''9223372037'' ())) \<noteq> 9223372037 * 1000000000 \<and>
   sint (ctw_syncInterval (conntracksync_Watch ''9223372037'' ())) = - 9223372036709551616"
  by (simp add: arpsync_Watch_def conntracksync_Watch_def Atoi_def digitVal_def
      seconds_def Second_def)

text \<open>
  Claim C8, amended. For an interval string \<open>s\<close> handed to a watcher's \<^verbatim>\<open>Watch\<close>:
  if \<open>s\<close> is empty, or \<^verbatim>\<open>strconv.Atoi\<close> rejects it, the loop runs with the watcher's
  default (120 seconds for ARP and for conntrack, \<^verbatim>\<open>DefaultSyncInterval\<close> for veth);
  if \<^verbatim>\<open>strconv.Atoi\<close> returns \<open>i\<close> and \<open>i\<close> seconds fit a \<^verbatim>\<open>time.Duration\<close>
  (\<open>|i| \<le> 9223372036\<close>), the loop's interval is \<open>i\<close> seconds.
\<close>

theorem Watch_interval:
  "atw_syncInterval (arpsync_Watch [] mc) = seconds 120 \<and>
   ctw_syncInterval (conntracksync_Watch [] mc') = seconds 120 \<and>
   vethsync_Watch_interval d [] = seconds d \<and>
   sint (seconds 120) = 120 * 1000000000 \<and>
   (Atoi s = Inl e \<longrightarrow>
      atw_syncInterval (arpsync_Watch s mc) = seconds 120 \<and>
      ctw_syncInterval (conntracksync_Watch s mc') = seconds 120 \<and>
      vethsync_Watch_interval d s = seconds d) \<and>
   (Atoi s = Inr i \<and> - 9223372036 \<le> i \<and> i \<le> 9223372036 \<longrightarrow>
      sint (atw_syncInterval (arpsync_Watch s mc)) = i * 1000000000 \<and>
      sint (ctw_syncInterval (conntracksync_Watch s mc')) = i * 1000000000 \<and>
      sint (vethsync_Watch_interval d s) = i * 1000000000)"
proof -
  have empty: "Atoi [] = Inl ErrSyntax"
    by (simp add: Atoi_def)
  have dflt: "sint (seconds 120) = 120 * 1000000000"
    by (rule sint_seconds) simp_all
  show ?thesis
    using Watch_unparsed [OF empty] dflt
    by (auto simp: Watch_unparsed Watch_parsed sint_seconds)
qed

theorem Watch_interval_witness:
  "Atoi ''abc'' = Inl ErrSyntax \<and>
   atw_syncInterval (arpsync_Watch ''abc'' ()) = seconds 120 \<and>
   ctw_syncInterval (conntracksync_Watch ''abc'' ()) = seconds 120 \<and>
   Atoi ''30'' = Inr 30 \<and>
   sint (atw_syncInterval (arpsync_Watch ''30'' ())) = 30 * 1000000000 \<and>
   sint (ctw_syncInterval (conntracksync_Watch ''30'' ())) = 30 * 1000000000 \<and>
   sint (vethsync_Watch_interval 5 ''30'') = 30 * 1000000000"
proof -
  have a: "Atoi ''abc'' = Inl ErrSyntax"
    by (simp add: Atoi_def digitVal_def)
  have b: "Atoi ''30'' = Inr 30"
    by (simp add: Atoi_def digitVal_def)
  show ?thesis
    using a b
      Watch_interval [of "()" "()" 5 "''abc''" ErrSyntax 30]
      Watch_interval [of "()" "()" 5 "''30''" ErrSyntax 30]
    by simp
qed

text \<open>
  Claim C10, as stated, at the interval string \<^verbatim>\<open>-9223372037\<close>: it parses as a negative
  integer and is taken verbatim, and the interval the loop sleeps for is positive, since
  the multiplication by \<^verbatim>\<open>time.Second\<close> wraps around.
\<close>

theorem Watch_negative_overflow_counterexample:
  "Atoi ''-9223372037'' = Inr (- 9223372037) \<and>
   0 < sint (atw_syncInterval (arpsync_Watch ''-9223372037'' ())) \<and>
   0 < sint (ctw_syncInterval (conntracksync_Watch ''-9223372037'' ()))"
  by (simp add: arpsync_Watch_def conntracksync_Watch_def Atoi_def digitVal_def
      seconds_def Second_def)

text \<open>
  Claim C10, amended. Whatever integer \<open>i\<close> \<^verbatim>\<open>strconv.Atoi\<close> returns for the
  interval string, zero and negative ones included, \<^verbatim>\<open>Watch\<close> takes it as it is, with
  no validation and no fallback: the interval is \<^verbatim>\<open>time.Duration(i) * time.Second\<close>.
  For \<open>- 9223372036 \<le> i \<le> 0\<close> that interval is \<open>i\<close> seconds, zero or negative, and
  is not the default; the default is used only when parsing fails.
\<close>

theorem Watch_no_validation:
  "(Atoi s = Inr i \<longrightarrow>
      atw_syncInterval (arpsync_Watch s mc) = seconds i \<and>
      ctw_syncInterval (conntracksync_Watch s mc') = seconds i) \<and>
   (Atoi s = Inr i \<and> - 9223372036 \<le> i \<and> i \<le> 0 \<longrightarrow>
      sint (atw_syncInterval (arpsync_Watch s mc)) = i * 1000000000 \<and>
      sint (ctw_syncInterval (conntracksync_Watch s mc')) = i * 1000000000 \<and>
      sint (atw_syncInterval (arpsync_Watch s mc)) \<le> 0 \<and>
      sint (ctw_syncInterval (conntracksync_Watch s mc')) \<le> 0 \<and>
      atw_syncInterval (arpsync_Watch s mc) \<noteq> seconds arpsync_DefaultSyncInterval \<and>
      ctw_syncInterval (conntracksync_Watch s mc') \<noteq> seconds conntracksync_DefaultSyncInterval)"
proof -
  have dflt: "sint (seconds 120) = 120 * 1000000000"
    by (rule sint_seconds) simp_all
  have neq: "seconds i \<noteq> seconds 120" if "- 9223372036 \<le> i" and "i \<le> 0" for i
  proof
    assume "seconds i = seconds 120"
    then have "sint (seconds i) = sint (seconds 120)"
      by simp
    with that dflt show False
      by (simp add: sint_seconds)
  qed
  show ?thesis
    using neq [of i]
    by (auto simp: Watch_parsed sint_seconds arpsync_DefaultSyncInterval_def
        conntracksync_DefaultSyncInterval_def)
qed

theorem Watch_no_validation_witness:
  "Atoi ''-5'' = Inr (- 5) \<and>
   sint (atw_syncInterval (arpsync_Watch ''-5'' ())) = - 5000000000 \<and>
   sint (ctw_syncInterval (conntracksync_Watch ''-5'' ())) = - 5000000000 \<and>
   Atoi ''0'' = Inr 0 \<and>
   sint (atw_syncInterval (arpsync_Watch ''0'' ())) = 0 \<and>
   sint (ctw_syncInterval (conntracksync_Watch ''0'' ())) = 0"
proof -
  have a: "Atoi ''-5'' = Inr (- 5)"
    by (simp add: Atoi_def digitVal_def)
  have b: "Atoi ''0'' = Inr 0"
    by (simp add: Atoi_def digitVal_def)
  show ?thesis
    using a b
      Watch_no_validation [of "''-5''" "- 5" "()" "()"]
      Watch_no_validation [of "''0''" 0 "()" "()"]
    by (simp add: seconds_def Second_def)
qed

section \<open>conntracksync: the entries deleted\<close>

lemma ctEntries_range_filter:
  "ctEntries_range containersMap ctEntries = filter (ctEntry_deleted containersMap) ctEntries"
  by (induction ctEntries) simp_all

lemma ctEntry_deleted_iff:
  "ctEntry_deleted cm =
     (\<lambda>e. (\<exists>c. map_of cm (specificKey e) = Some c \<and> ReplySourceIP e \<noteq> PrimaryIp c) \<or>
      (map_of cm (specificKey e) = None \<and>
       (\<exists>c. map_of cm (genericKey e) = Some c \<and> ReplySourceIP e \<noteq> PrimaryIp c)))"
  by (rule ext) (auto simp: ctEntry_deleted_def split: option.splits)

text \<open>
  Claim C3. In a reconciliation step that has built the published-port map, every entry
  of the conntrack table is looked up first under its specific key, which is its
  original destination IP, a colon, its original destination port, a slash and its
  protocol, and, only if that misses, under its generic key, which is \<^verbatim>\<open>0.0.0.0:\<close>
  followed by the port, a slash and the protocol. The entries \<^verbatim>\<open>CTEntryDelete\<close> is
  called on are, in the order of the table, exactly those for which the key that hits
  maps to a container whose \<^verbatim>\<open>PrimaryIp\<close> differs from the entry's \<^verbatim>\<open>ReplySourceIP\<close>.
  An entry for which both keys miss is skipped.
\<close>

theorem conntrack_doSync_entries:
  "buildContainersMaps mc = Inr containersMap \<Longrightarrow>
   conntracksync_doSync mc (Inr ctEntries) =
     Inr (filter
           (\<lambda>e. let specific = OriginalDestinationIP e @ '':'' @ OriginalDestinationPort e @
                                 ''/'' @ Protocol e;
                     generic = ''0.0.0.0:'' @ OriginalDestinationPort e @ ''/'' @ Protocol e
                 in (\<exists>c. map_of containersMap specific = Some c \<and>
                          ReplySourceIP e \<noteq> PrimaryIp c) \<or>
                    (map_of containersMap specific = None \<and>
                     (\<exists>c. map_of containersMap generic = Some c \<and>
                          ReplySourceIP e \<noteq> PrimaryIp c)))
           ctEntries)"
  by (simp add: conntracksync_doSync_def ctEntries_range_filter ctEntry_deleted_iff
      specificKey_def genericKey_def Let_def)

text \<open>
  On a host with one container publishing port 8080 on every address and another
  publishing it on \<^verbatim>\<open>10.0.0.1\<close>: an entry for \<^verbatim>\<open>10.0.0.1\<close> is judged by the second
  container alone, an entry for another address by the first, and an entry for port
  9090 is skipped.
\<close>

theorem conntrack_doSync_entries_witness:
  "buildContainersMaps publishingBoth =
     Inr [(''0.0.0.0:8080/tcp'',
           containerOn ''H'' ''10.42.0.5'' ''02:aa:aa:aa:aa:05'' [''0.0.0.0:8080:80/tcp'']),
          (''10.0.0.1:8080/tcp'',
           containerOn ''H'' ''10.42.0.7'' ''02:aa:aa:aa:aa:07'' [''10.0.0.1:8080:80/tcp''])] \<and>
   conntracksync_doSync publishingBoth
     (Inr [dnat ''10.0.0.1'' ''8080'' ''10.42.0.5'',
           dnat ''10.0.0.1'' ''8080'' ''10.42.0.7'',
           dnat ''10.0.0.2'' ''8080'' ''10.42.0.7'',
           dnat ''10.0.0.2'' ''8080'' ''10.42.0.5'',
           dnat ''10.0.0.2'' ''9090'' ''10.42.0.9'']) =
     Inr [dnat ''10.0.0.1'' ''8080'' ''10.42.0.5'',
          dnat ''10.0.0.2'' ''8080'' ''10.42.0.7'']"
proof -
  have h: "buildContainersMaps publishingBoth =
     Inr [(''0.0.0.0:8080/tcp'',
           containerOn ''H'' ''10.42.0.5'' ''02:aa:aa:aa:aa:05'' [''0.0.0.0:8080:80/tcp'']),
          (''10.0.0.1:8080/tcp'',
           containerOn ''H'' ''10.42.0.7'' ''02:aa:aa:aa:aa:07'' [''10.0.0.1:8080:80/tcp''])]"
    by code_simp
  show ?thesis
    using h conntrack_doSync_entries [OF h]
    by (simp add: Let_def)
qed

section \<open>conntracksync: the panic in the map construction\<close>

lemma Split_not_Nil [simp]: "Split s sep \<noteq> []"
  by (induction s) (auto split: list.splits)

lemma length_Split: "length (Split s sep) = Suc (length (filter (\<lambda>c. c = sep) s))"
  by (induction s) (auto split: list.splits)

lemma Split_short_iff: "length (Split s sep) < 2 \<longleftrightarrow> sep \<notin> set s"
  by (auto simp: length_Split filter_empty_conv less_Suc_eq_le numeral_2_eq_2)

lemma at_index_Split:
  "sep \<in> set s \<Longrightarrow> \<exists>x. at_index (Split s sep) 1 = Inr x"
  "sep \<notin> set s \<Longrightarrow> at_index (Split s sep) 1 = Inl (Panic ''runtime error: index out of range'')"
  using Split_short_iff [of s sep] by (auto simp: at_index_def)

lemma ports_range_cases:
  "(\<exists>aPort \<in> set ports. slashless_triple aPort) \<and>
     ports_range c ports m = Inl (Panic ''runtime error: index out of range'') \<or>
   (\<not> (\<exists>aPort \<in> set ports. slashless_triple aPort)) \<and> (\<exists>m'. ports_range c ports m = Inr m')"
proof (induction ports arbitrary: m)
  case Nil
  then show ?case by simp
next
  case (Cons aPort ports)
  show ?case
  proof (cases "length (Split aPort CHR '':'') = 3")
    case False
    then show ?thesis using Cons.IH [of m] by (simp add: slashless_triple_def)
  next
    case three: True
    show ?thesis
    proof (cases "CHR ''/'' \<in> set (Split aPort CHR '':'' ! 2)")
      case True
      then obtain x where "at_index (Split (Split aPort CHR '':'' ! 2) CHR ''/'') 1 = Inr x"
        using at_index_Split(1) by blast
      then show ?thesis
        using three True Cons.IH by (simp add: slashless_triple_def Let_def)
    next
      case False
      then show ?thesis
        using three at_index_Split(2) [OF False] by (simp add: slashless_triple_def Let_def)
    qed
  qed
qed

lemma containers_range_cases:
  "(\<exists>c \<in> set containers. HostUUID c = Host_UUID host \<and>
       (\<exists>aPort \<in> set (Ports c). slashless_triple aPort)) \<and>
     containers_range host containers m = Inl (Panic ''runtime error: index out of range'') \<or>
   (\<not> (\<exists>c \<in> set containers. HostUUID c = Host_UUID host \<and>
       (\<exists>aPort \<in> set (Ports c). slashless_triple aPort))) \<and>
     (\<exists>m'. containers_range host containers m = Inr m')"
proof (induction containers arbitrary: m)
  case Nil
  then show ?case by simp
next
  case (Cons c containers)
  show ?case
  proof (cases "HostUUID c = Host_UUID host \<and> length (Ports c) > 0")
    case False
    then show ?thesis using Cons.IH [of m] by auto
  next
    case True
    from ports_range_cases [of "Ports c" c m] show ?thesis
    proof (elim disjE conjE exE)
      assume "\<exists>aPort \<in> set (Ports c). slashless_triple aPort"
        and "ports_range c (Ports c) m = Inl (Panic ''runtime error: index out of range'')"
      then show ?thesis using True by auto
    next
      fix m'
      assume "\<not> (\<exists>aPort \<in> set (Ports c). slashless_triple aPort)"
        and "ports_range c (Ports c) m = Inr m'"
      then show ?thesis using True Cons.IH [of m'] by auto
    qed
  qed
qed

text \<open>
  Claim C9. On the metadata in which the local container publishes \<^verbatim>\<open>0.0.0.0:8080:80\<close>,
  \<^verbatim>\<open>buildContainersMaps\<close> panics with an index out of range. In general, when the
  metadata calls succeed, it panics if some container on the self host has a port of
  three colon-separated fields whose third field has no slash, and it returns a map if
  no container on the self host has such a port.
\<close>

theorem buildContainersMaps_partial:
  "buildContainersMaps (publishing [''0.0.0.0:8080:80'']) =
     Inl (Panic ''runtime error: index out of range'') \<and>
   (GetSelfHost mc = Inr host \<and> GetContainers mc = Inr containers \<longrightarrow>
      ((\<exists>c \<in> set containers. HostUUID c = Host_UUID host \<and>
           (\<exists>aPort \<in> set (Ports c). slashless_triple aPort)) \<longrightarrow>
         buildContainersMaps mc = Inl (Panic ''runtime error: index out of range'')) \<and>
      ((\<forall>c \<in> set containers. HostUUID c = Host_UUID host \<longrightarrow>
           (\<forall>aPort \<in> set (Ports c). \<not> slashless_triple aPort)) \<longrightarrow>
         (\<exists>containersMap. buildContainersMaps mc = Inr containersMap)))"
proof (intro conjI impI)
  show "buildContainersMaps (publishing [''0.0.0.0:8080:80'']) =
     Inl (Panic ''runtime error: index out of range'')"
    by code_simp
next
  assume mc: "GetSelfHost mc = Inr host \<and> GetContainers mc = Inr containers"
    and bad: "\<exists>c \<in> set containers. HostUUID c = Host_UUID host \<and>
           (\<exists>aPort \<in> set (Ports c). slashless_triple aPort)"
  show "buildContainersMaps mc = Inl (Panic ''runtime error: index out of range'')"
    using containers_range_cases [of containers host "[]"] mc bad
    by (auto simp: buildContainersMaps_def)
next
  assume mc: "GetSelfHost mc = Inr host \<and> GetContainers mc = Inr containers"
    and good: "\<forall>c \<in> set containers. HostUUID c = Host_UUID host \<longrightarrow>
           (\<forall>aPort \<in> set (Ports c). \<not> slashless_triple aPort)"
  show "\<exists>containersMap. buildContainersMaps mc = Inr containersMap"
    using containers_range_cases [of containers host "[]"] mc good
    by (auto simp: buildContainersMaps_def)
qed

theorem buildContainersMaps_partial_witness:
  "slashless_triple ''0.0.0.0:8080:80'' \<and>
   buildContainersMaps (publishing [''0.0.0.0:8080:80'']) =
     Inl (Panic ''runtime error: index out of range'') \<and>
   \<not> slashless_triple ''0.0.0.0:8080:80/tcp'' \<and>
   (\<exists>containersMap.
      buildContainersMaps (publishing [''0.0.0.0:8080:80/tcp'']) = Inr containersMap)"
proof -
  have b: "slashless_triple ''0.0.0.0:8080:80''"
    by (simp add: slashless_triple_def)
  have g: "\<not> slashless_triple ''0.0.0.0:8080:80/tcp''"
    by (simp add: slashless_triple_def)
  show ?thesis
    using b g
      buildContainersMaps_partial [of "publishing [''0.0.0.0:8080:80'']" hostH
        "[containerOn ''H'' ''10.42.0.5'' ''02:aa:aa:aa:aa:05'' [''0.0.0.0:8080:80'']]"]
      buildContainersMaps_partial [of "publishing [''0.0.0.0:8080:80/tcp'']" hostH
        "[containerOn ''H'' ''10.42.0.5'' ''02:aa:aa:aa:aa:05'' [''0.0.0.0:8080:80/tcp'']]"]
    by simp
qed

section \<open>The watcher loop: errors and panics\<close>

lemma syncLoop_append:
  "(\<forall>env \<in> set pre. \<forall>msg. doSync env \<noteq> Inl (Panic msg)) \<Longrightarrow>
   syncLoop doSync (pre @ post) = syncLoop doSync pre @ syncLoop doSync post"
proof (induction pre)
  case Nil
  then show ?case by simp
next
  case (Cons env pre)
  then show ?case
    by (cases "doSync env") (auto split: failure.splits)
qed

lemma syncLoop_no_panic:
  "(\<forall>env \<in> set envs. \<forall>msg. doSync env \<noteq> Inl (Panic msg)) \<Longrightarrow>
   syncLoop doSync envs =
     map (\<lambda>env. case doSync env of Inr calls \<Rightarrow> Synced calls | Inl f \<Rightarrow>
                  (case f of Err msg \<Rightarrow> Logged msg | Panic msg \<Rightarrow> Crashed msg)) envs"
proof (induction envs)
  case Nil
  then show ?case by simp
next
  case (Cons env envs)
  then show ?case
    by (cases "doSync env") (auto split: failure.splits)
qed

text \<open>
  Claim C5, amended. As long as no step panics, every tick of the schedule is performed:
  a step that returns an error is logged and the loop goes on to its next tick, as it
  does after a step that returns \<^verbatim>\<open>nil\<close>. A panic raised inside a step is not
  recovered: it ends the loop at that tick, and no later tick is performed. Both
  watchers' loops are \<open>syncLoop\<close> on their own \<open>doSync\<close>.
\<close>

theorem syncLoop_error_and_panic:
  "(\<forall>env \<in> set pre. \<forall>msg. doSync env \<noteq> Inl (Panic msg)) \<longrightarrow>
     length (syncLoop doSync pre) = length pre \<and>
     (\<forall>i < length pre. \<forall>msg. doSync (pre ! i) = Inl (Err msg) \<longrightarrow>
        syncLoop doSync pre ! i = Logged msg) \<and>
     (\<forall>i < length pre. \<forall>calls. doSync (pre ! i) = Inr calls \<longrightarrow>
        syncLoop doSync pre ! i = Synced calls) \<and>
     (\<forall>msg. doSync env = Inl (Panic msg) \<longrightarrow>
        syncLoop doSync (pre @ env # post) = syncLoop doSync pre @ [Crashed msg] \<and>
        length (syncLoop doSync (pre @ env # post)) = Suc (length pre))"
proof (intro impI)
  assume np: "\<forall>env \<in> set pre. \<forall>msg. doSync env \<noteq> Inl (Panic msg)"
  have len: "length (syncLoop doSync pre) = length pre"
    by (simp add: syncLoop_no_panic [OF np])
  have nth: "syncLoop doSync pre ! i =
      (case doSync (pre ! i) of Inr calls \<Rightarrow> Synced calls | Inl f \<Rightarrow>
                  (case f of Err msg \<Rightarrow> Logged msg | Panic msg \<Rightarrow> Crashed msg))"
    if "i < length pre" for i
    using that by (simp add: syncLoop_no_panic [OF np])
  have crash: "syncLoop doSync (pre @ env # post) = syncLoop doSync pre @ [Crashed msg]"
    if "doSync env = Inl (Panic msg)" for msg
    using that by (simp add: syncLoop_append [OF np])
  show "length (syncLoop doSync pre) = length pre \<and>
     (\<forall>i < length pre. \<forall>msg. doSync (pre ! i) = Inl (Err msg) \<longrightarrow>
        syncLoop doSync pre ! i = Logged msg) \<and>
     (\<forall>i < length pre. \<forall>calls. doSync (pre ! i) = Inr calls \<longrightarrow>
        syncLoop doSync pre ! i = Synced calls) \<and>
     (\<forall>msg. doSync env = Inl (Panic msg) \<longrightarrow>
        syncLoop doSync (pre @ env # post) = syncLoop doSync pre @ [Crashed msg] \<and>
        length (syncLoop doSync (pre @ env # post)) = Suc (length pre))"
    using len nth crash by simp
qed

text \<open>
  Claim C5, as stated, on the conntrack watcher: the step of the first tick panics in
  \<^verbatim>\<open>buildContainersMaps\<close>, and the loop does not perform its second tick.
\<close>

theorem syncLoop_panic_counterexample:
  "conntracksync_syncLoop
     [(publishing [''0.0.0.0:8080:80''], Inr []),
      (publishing [''0.0.0.0:8080:80/tcp''], Inr [])] =
   [Crashed ''runtime error: index out of range'']"
  by code_simp

theorem syncLoop_error_and_panic_witness:
  "conntracksync_syncLoop
     [(publishing [''0.0.0.0:8080:80/tcp''], Inl (Err ''netlink receive failed'')),
      (publishing [''0.0.0.0:8080:80/tcp''], Inr [])] =
     [Logged ''netlink receive failed'', Synced []] \<and>
   conntracksync_syncLoop
     [(publishing [''0.0.0.0:8080:80/tcp''], Inl (Err ''netlink receive failed'')),
      (publishing [''0.0.0.0:8080:80/tcp''], Inr []),
      (publishing [''0.0.0.0:8080:80''], Inr []),
      (publishing [''0.0.0.0:8080:80/tcp''], Inr [])] =
     [Logged ''netlink receive failed'', Synced [],
      Crashed ''runtime error: index out of range'']"
proof -
  let ?step = "\<lambda>(mc, ListDNAT). conntracksync_doSync mc ListDNAT"
  let ?pre = "[(publishing [''0.0.0.0:8080:80/tcp''], Inl (Err ''netlink receive failed'')),
      (publishing [''0.0.0.0:8080:80/tcp''], Inr [])]"
  let ?env = "(publishing [''0.0.0.0:8080:80''], Inr [])"
  let ?post = "[(publishing [''0.0.0.0:8080:80/tcp''], Inr [])]"
  have s0: "?step (?pre ! 0) = Inl (Err ''netlink receive failed'')"
    by code_simp
  have s1: "?step (?pre ! 1) = Inr []"
    by code_simp
  have s2: "?step ?env = Inl (Panic ''runtime error: index out of range'')"
    by code_simp
  have np: "\<forall>env \<in> set ?pre. \<forall>msg. ?step env \<noteq> Inl (Panic msg)"
    using s0 s1 by simp
  have crash: "syncLoop ?step (?pre @ ?env # ?post) =
      syncLoop ?step ?pre @ [Crashed ''runtime error: index out of range'']"
    using syncLoop_error_and_panic [of ?pre ?step ?env ?post] np s2 by blast
  have pre: "syncLoop ?step ?pre = [Logged ''netlink receive failed'', Synced []]"
    by code_simp
  show ?thesis
    unfolding conntracksync_syncLoop_def using crash pre by simp
qed

section \<open>arpsync: the loop over the ARP table\<close>

lemma syncEntry_unfold:
  "syncEntry net host drv idx sub cm e =
     (if \<not> (LinkIndex e = idx \<and> Contains net sub (IP e)) then None
      else (case map_of cm (IP_String net (IP e)) of
              None \<Rightarrow> None
            | Some c \<Rightarrow>
                if HardwareAddr_String net (HardwareAddr e) = expectedMAC host drv c then None
                else (case ParseMAC net (expectedMAC host drv c) of
                        Inl err \<Rightarrow> None
                      | Inr hw \<Rightarrow> Some (e\<lparr>HardwareAddr := hw, Type := NUD_REACHABLE\<rparr>))))"
proof (cases "map_of cm (IP_String net (IP e))")
  case None
  then show ?thesis by (simp add: syncEntry_def)
next
  case (Some c)
  show ?thesis
  proof (cases "HostUUID c = Host_UUID host")
    case True
    then show ?thesis
      using Some by (simp add: syncEntry_def expectedMAC_def eq_commute [of "PrimaryMacAddress c"])
  next
    case False
    then show ?thesis
      using Some by (simp add: syncEntry_def expectedMAC_def)
  qed
qed

lemma syncEntry_SomeD:
  assumes "syncEntry net host drv idx sub cm e = Some n"
  shows "LinkIndex e = idx" and "Contains net sub (IP e)"
    and "\<exists>c. map_of cm (IP_String net (IP e)) = Some c \<and>
           HardwareAddr_String net (HardwareAddr e) \<noteq> expectedMAC host drv c \<and>
           ParseMAC net (expectedMAC host drv c) = Inr (HardwareAddr n)"
    and "n = e\<lparr>HardwareAddr := HardwareAddr n, Type := NUD_REACHABLE\<rparr>"
proof -
  from assms show a: "LinkIndex e = idx" and b: "Contains net sub (IP e)"
    by (simp_all add: syncEntry_unfold split: if_splits)
  from assms a b obtain c where c: "map_of cm (IP_String net (IP e)) = Some c"
    by (cases "map_of cm (IP_String net (IP e))") (simp_all add: syncEntry_unfold)
  from assms a b c have ne: "HardwareAddr_String net (HardwareAddr e) \<noteq> expectedMAC host drv c"
    by (auto simp: syncEntry_unfold)
  from assms a b c ne obtain hw where hw: "ParseMAC net (expectedMAC host drv c) = Inr hw"
    and n: "n = e\<lparr>HardwareAddr := hw, Type := NUD_REACHABLE\<rparr>"
    by (cases "ParseMAC net (expectedMAC host drv c)") (simp_all add: syncEntry_unfold)
  from n have "HardwareAddr n = hw" by simp
  with c ne hw n
  show "\<exists>c. map_of cm (IP_String net (IP e)) = Some c \<and>
           HardwareAddr_String net (HardwareAddr e) \<noteq> expectedMAC host drv c \<and>
           ParseMAC net (expectedMAC host drv c) = Inr (HardwareAddr n)"
    and "n = e\<lparr>HardwareAddr := HardwareAddr n, Type := NUD_REACHABLE\<rparr>"
    by simp_all
qed

lemma syncEntry_same_neigh:
  assumes "syncEntry net host drv idx sub cm e = Some n"
  shows "same_neigh n e"
proof -
  have "n = e\<lparr>HardwareAddr := HardwareAddr n, Type := NUD_REACHABLE\<rparr>"
    using assms by (rule syncEntry_SomeD(4))
  then have "LinkIndex n = LinkIndex e \<and> IP n = IP e"
    by (metis Neigh.select_convs Neigh.surjective Neigh.update_convs)
  then show ?thesis by (simp add: same_neigh_def)
qed

lemma syncEntry_outside:
  "\<not> (LinkIndex e = idx \<and> Contains net sub (IP e)) \<or>
     map_of cm (IP_String net (IP e)) = None \<Longrightarrow>
   syncEntry net host drv idx sub cm e = None"
  by (auto simp: syncEntry_unfold)

lemma set_syncEntries:
  "set (syncEntries net host drv idx sub cm entries) =
     {n. \<exists>e \<in> set entries. syncEntry net host drv idx sub cm e = Some n}"
  by (induction entries) (auto split: option.splits)

lemma NeighSet_effect_nth:
  "i < length tab \<Longrightarrow>
   NeighSet_effect n tab ! i = (if same_neigh (tab ! i) n then n else tab ! i)"
proof (cases "\<exists>e \<in> set tab. same_neigh e n")
  case True
  then show "i < length tab \<Longrightarrow> ?thesis"
    by (simp add: NeighSet_effect_def)
next
  case False
  assume i: "i < length tab"
  then have "\<not> same_neigh (tab ! i) n"
    using False nth_mem by blast
  then show ?thesis
    using False i by (simp add: NeighSet_effect_def nth_append)
qed

lemma length_NeighSet_effect: "length tab \<le> length (NeighSet_effect n tab)"
  by (simp add: NeighSet_effect_def)

lemma NeighSet_effects_nth_untouched:
  "i < length tab \<Longrightarrow> \<forall>n \<in> set calls. \<not> same_neigh (tab ! i) n \<Longrightarrow>
   NeighSet_effects calls tab ! i = tab ! i"
proof (induction calls arbitrary: tab)
  case Nil
  then show ?case by simp
next
  case (Cons n calls)
  have "i < length (NeighSet_effect n tab)"
    using Cons.prems(1) length_NeighSet_effect [of tab n] by simp
  moreover have "NeighSet_effect n tab ! i = tab ! i"
    using Cons.prems by (simp add: NeighSet_effect_nth)
  ultimately show ?case
    using Cons.IH [of "NeighSet_effect n tab"] Cons.prems(2) by simp
qed

lemma set_NeighSet_effect:
  "set (NeighSet_effect n tab) \<subseteq> insert n {e \<in> set tab. \<not> same_neigh e n}"
proof (cases "\<exists>e \<in> set tab. same_neigh e n")
  case True
  then have "NeighSet_effect n tab = map (\<lambda>e. if same_neigh e n then n else e) tab"
    by (simp add: NeighSet_effect_def)
  then show ?thesis by auto
next
  case False
  then have "NeighSet_effect n tab = tab @ [n]"
    by (simp add: NeighSet_effect_def)
  then show ?thesis using False by auto
qed

lemma set_NeighSet_effects:
  "set (NeighSet_effects calls tab) \<subseteq>
     set calls \<union> {e \<in> set tab. \<forall>n \<in> set calls. \<not> same_neigh e n}"
proof (induction calls arbitrary: tab)
  case Nil
  then show ?case by simp
next
  case (Cons n calls)
  show ?case
  proof
    fix x
    assume "x \<in> set (NeighSet_effects (n # calls) tab)"
    then have "x \<in> set (NeighSet_effects calls (NeighSet_effect n tab))"
      by simp
    then have "x \<in> set calls \<or>
        (x \<in> set (NeighSet_effect n tab) \<and> (\<forall>m \<in> set calls. \<not> same_neigh x m))"
      using Cons.IH [of "NeighSet_effect n tab"] by blast
    moreover have "x = n \<or> (x \<in> set tab \<and> \<not> same_neigh x n)"
      if "x \<in> set (NeighSet_effect n tab)"
      using that set_NeighSet_effect [of n tab] by blast
    ultimately show "x \<in> set (n # calls) \<union>
        {e \<in> set tab. \<forall>m \<in> set (n # calls). \<not> same_neigh e m}"
      by auto
  qed
qed

lemma doSync_prepared:
  "arpsync_prepare net mc nl = Inr (v, entries) \<Longrightarrow>
   arpsync_doSync net mc nl =
     Inr (syncEntries net (av_host v) (av_networkDriverMacAddress v) (av_bridgeLinkIndex v)
            (av_bridgeSubnet v) (av_containersMap v) entries)"
  by (simp add: arpsync_doSync_def)

lemma same_neigh_sym: "same_neigh a b \<Longrightarrow> same_neigh b a"
  by (simp add: same_neigh_def)

lemma same_neigh_view:
  "same_neigh a b \<Longrightarrow> on_bridge net v a = on_bridge net v b"
  "same_neigh a b \<Longrightarrow> container_of net v a = container_of net v b"
  by (simp_all add: same_neigh_def)


lemma after_step_cases:
  assumes "e' \<in> set (NeighSet_effects
      (syncEntries net (av_host v) (av_networkDriverMacAddress v) (av_bridgeLinkIndex v)
            (av_bridgeSubnet v) (av_containersMap v) entries) entries)"
  shows "(\<exists>e \<in> set entries. entry_call net v e = Some e') \<or>
         (e' \<in> set entries \<and> entry_call net v e' = None)"
proof -
  let ?calls = "syncEntries net (av_host v) (av_networkDriverMacAddress v) (av_bridgeLinkIndex v)
            (av_bridgeSubnet v) (av_containersMap v) entries"
  from assms set_NeighSet_effects [of ?calls entries]
  consider (call) "e' \<in> set ?calls"
    | (kept) "e' \<in> set entries" and "\<forall>n \<in> set ?calls. \<not> same_neigh e' n"
    by blast
  then show ?thesis
  proof cases
    case call
    then show ?thesis by (simp add: set_syncEntries)
  next
    case kept
    have "entry_call net v e' = None"
    proof (cases "entry_call net v e'")
      case None
      then show ?thesis .
    next
      case (Some n)
      then have "n \<in> set ?calls"
        using kept(1) by (auto simp: set_syncEntries)
      moreover have "same_neigh e' n"
        using syncEntry_same_neigh [OF Some] by (rule same_neigh_sym)
      ultimately show ?thesis using kept(2) by blast
    qed
    then show ?thesis using kept(1) by simp
  qed
qed



lemma set_update_subset: "set (AList.update k v al) \<subseteq> insert (k, v) (set al)"
  by (induction al) auto

lemma update_not_Nil: "AList.update k v al \<noteq> []"
  by (cases al) auto

lemma driverContainers_range_cases:
  "driverContainers_range host cs (m0, n0) = (m, n) \<Longrightarrow>
   (m, n) = (m0, n0) \<or>
   (n \<noteq> [] \<and> (\<exists>d \<in> set cs. HostUUID d = Host_UUID host \<and> m = PrimaryMacAddress d))"
proof (induction cs arbitrary: m0 n0)
  case Nil
  then show ?case by simp
next
  case (Cons a cs)
  show ?case
  proof (cases "HostUUID a = Host_UUID host")
    case False
    then show ?thesis using Cons by auto
  next
    case True
    with Cons.prems have "driverContainers_range host cs
        (PrimaryMacAddress a, AList.update (NetworkUUID a) True n0) = (m, n)"
      by simp
    from Cons.IH [OF this] True show ?thesis
      using update_not_Nil [of "NetworkUUID a" True n0] by auto
  qed
qed

lemma services_range_cases:
  "services_range host services (m0, n0) = (m, n) \<Longrightarrow>
   (m, n) = (m0, n0) \<or>
   (n \<noteq> [] \<and>
    (\<exists>s \<in> set services. Kind s = ''networkDriverService'' \<and>
       Service_Name s = PrimaryServiceName s \<and>
       (\<exists>d \<in> set (Containers s). HostUUID d = Host_UUID host \<and> m = PrimaryMacAddress d)))"
proof (induction services arbitrary: m0 n0)
  case Nil
  then show ?case by simp
next
  case (Cons s services)
  show ?case
  proof (cases "Kind s = ''networkDriverService'' \<and> Service_Name s = PrimaryServiceName s")
    case False
    then have "services_range host services (m0, n0) = (m, n)"
      using Cons.prems by auto
    from Cons.IH [OF this] show ?thesis by auto
  next
    case True
    obtain m1 n1 where d: "driverContainers_range host (Containers s) (m0, n0) = (m1, n1)"
      by (cases "driverContainers_range host (Containers s) (m0, n0)")
    with True Cons.prems have r: "services_range host services (m1, n1) = (m, n)"
      by simp
    from Cons.IH [OF r] driverContainers_range_cases [OF d] True show ?thesis
      by auto
  qed
qed

lemma buildContainersMap_range_mem:
  "(ip, c) \<in> set (buildContainersMap_range cs network m) \<Longrightarrow>
   (ip, c) \<in> set m \<or>
   (c \<in> set cs \<and> PrimaryIp c = ip \<and> NetworkUUID c = Network_UUID network)"
proof (induction cs arbitrary: m)
  case Nil
  then show ?case by simp
next
  case (Cons a cs)
  show ?case
  proof (cases "PrimaryIp a \<noteq> [] \<and> NetworkUUID a = Network_UUID network")
    case False
    then show ?thesis using Cons by auto
  next
    case True
    with Cons.prems have "(ip, c) \<in> set (buildContainersMap_range cs network
        (AList.update (PrimaryIp a) a m))"
      by simp
    from Cons.IH [OF this] True show ?thesis
      using set_update_subset [of "PrimaryIp a" a m] by auto
  qed
qed

lemma prepare_view:
  assumes "arpsync_prepare net mc nl = Inr (v, entries)"
  shows "GetSelfHost mc = Inr (av_host v)"
    and "\<exists>services. GetServices mc = Inr services \<and>
           (\<exists>s \<in> set services. Kind s = ''networkDriverService'' \<and>
              Service_Name s = PrimaryServiceName s \<and>
              (\<exists>d \<in> set (Containers s). HostUUID d = Host_UUID (av_host v) \<and>
                 av_networkDriverMacAddress v = PrimaryMacAddress d))"
    and "\<exists>containers. GetContainers mc = Inr containers \<and>
           (\<forall>ip c. map_of (av_containersMap v) ip = Some c \<longrightarrow>
              c \<in> set containers \<and> PrimaryIp c = ip)"
proof -
  from assms have "\<exists>networks host services m n containers.
      GetSelfHost mc = Inr host \<and> GetServices mc = Inr services \<and>
      services_range host services ([], []) = (m, n) \<and> n \<noteq> [] \<and>
      GetContainers mc = Inr containers \<and> av_host v = host \<and>
      av_networkDriverMacAddress v = m \<and>
      av_containersMap v = buildContainersMap containers (localNetwork_range networks n)"
    by (auto simp: arpsync_prepare_def Let_def split: sum.splits prod.splits if_splits)
  then obtain networks host services m n containers
    where h: "GetSelfHost mc = Inr host" and s: "GetServices mc = Inr services"
      and sr: "services_range host services ([], []) = (m, n)" and n: "n \<noteq> []"
      and c: "GetContainers mc = Inr containers"
      and v: "av_host v = host" "av_networkDriverMacAddress v = m"
        "av_containersMap v = buildContainersMap containers (localNetwork_range networks n)"
    by blast
  show "GetSelfHost mc = Inr (av_host v)"
    using h v by simp
  from services_range_cases [OF sr] n
  show "\<exists>services. GetServices mc = Inr services \<and>
           (\<exists>s \<in> set services. Kind s = ''networkDriverService'' \<and>
              Service_Name s = PrimaryServiceName s \<and>
              (\<exists>d \<in> set (Containers s). HostUUID d = Host_UUID (av_host v) \<and>
                 av_networkDriverMacAddress v = PrimaryMacAddress d))"
    using s v by auto
  have "c' \<in> set containers \<and> PrimaryIp c' = ip"
    if "map_of (av_containersMap v) ip = Some c'" for ip c'
  proof -
    from that have "(ip, c') \<in> set (buildContainersMap_range containers
        (localNetwork_range networks n) [])"
      using v by (auto simp: buildContainersMap_def dest: map_of_SomeD)
    from buildContainersMap_range_mem [OF this] show ?thesis by simp
  qed
  then show "\<exists>containers. GetContainers mc = Inr containers \<and>
           (\<forall>ip c. map_of (av_containersMap v) ip = Some c \<longrightarrow>
              c \<in> set containers \<and> PrimaryIp c = ip)"
    using c by blast
qed

lemma call_for_entry:
  assumes b: "on_bridge net v e" and c: "container_of net v e = Some c"
  shows "HardwareAddr_String net (HardwareAddr e) = expected_of v c \<Longrightarrow> entry_call net v e = None"
    and "ParseMAC net (expected_of v c) = Inl err \<Longrightarrow> entry_call net v e = None"
    and "HardwareAddr_String net (HardwareAddr e) \<noteq> expected_of v c \<Longrightarrow>
         ParseMAC net (expected_of v c) = Inr hw \<Longrightarrow>
         \<exists>n. entry_call net v e = Some n \<and> LinkIndex n = LinkIndex e \<and> IP n = IP e \<and>
             HardwareAddr n = hw"
  using b c by (simp_all add: syncEntry_unfold)

lemma after_step_converged:
  assumes e': "e' \<in> set (NeighSet_effects
      (syncEntries net (av_host v) (av_networkDriverMacAddress v) (av_bridgeLinkIndex v)
            (av_bridgeSubnet v) (av_containersMap v) entries) entries)"
    and b: "on_bridge net v e'" and c: "container_of net v e' = Some c"
    and hw: "ParseMAC net (expected_of v c) = Inr hw"
  shows "HardwareAddr e' = hw \<or> HardwareAddr_String net (HardwareAddr e') = expected_of v c"
  using after_step_cases [OF e']
proof (elim disjE bexE conjE)
  fix e
  assume "e \<in> set entries" and call: "entry_call net v e = Some e'"
  have "container_of net v e = Some c"
    using same_neigh_view(2) [OF syncEntry_same_neigh [OF call], where net = net and v = v] c
    by simp
  with syncEntry_SomeD(3) [OF call] hw show ?thesis
    by auto
next
  assume "entry_call net v e' = None"
  with b c hw show ?thesis
    by (simp add: syncEntry_unfold split: if_splits)
qed

text \<open>
  Claim C1, as stated, on a local container whose \<^verbatim>\<open>PrimaryMacAddress\<close> is empty: the
  entry is on the bridge, in the subnet, its IP address maps to the container, and its
  MAC address differs from the expected one, yet the step makes no \<^verbatim>\<open>NeighSet\<close> call,
  since the expected address does not parse.
\<close>

theorem arp_unparsable_counterexample:
  "arpsync_prepare gonet
     (metadataWith ''02:dd:dd:dd:dd:dd'' [containerOn ''H'' ''10.42.0.5'' [] []])
     (kernelWith [docker0] [neigh [10, 42, 0, 5] [2, 187, 187, 187, 187, 187]]) =
     Inr (viewOf ''02:dd:dd:dd:dd:dd'' [(''10.42.0.5'', containerOn ''H'' ''10.42.0.5'' [] [])],
          [neigh [10, 42, 0, 5] [2, 187, 187, 187, 187, 187]]) \<and>
   Contains gonet ([10, 42, 0, 0], [255, 255, 0, 0]) [10, 42, 0, 5] \<and>
   IP_String gonet [10, 42, 0, 5] = ''10.42.0.5'' \<and>
   HardwareAddr_String gonet [2, 187, 187, 187, 187, 187] = ''02:bb:bb:bb:bb:bb'' \<and>
   expectedMAC hostH ''02:dd:dd:dd:dd:dd'' (containerOn ''H'' ''10.42.0.5'' [] []) = [] \<and>
   arpsync_doSync gonet
     (metadataWith ''02:dd:dd:dd:dd:dd'' [containerOn ''H'' ''10.42.0.5'' [] []])
     (kernelWith [docker0] [neigh [10, 42, 0, 5] [2, 187, 187, 187, 187, 187]]) = Inr []"
  by code_simp

text \<open>
  Claim C1, amended. In a reconciliation step that reaches the ARP table, the driver's
  MAC address is the \<^verbatim>\<open>PrimaryMacAddress\<close> of a container, on the self host, of a
  network driver service that is its own primary service; the containers of the map are
  containers of the metadata under their \<^verbatim>\<open>PrimaryIp\<close>; and the
  \<^verbatim>\<open>NeighSet\<close> calls are those of the loop body on the entries of the table. For an
  entry on the bridge and in the bridge subnet whose IP address maps to container \<open>c\<close>,
  with the expected MAC address \<open>c\<close>'s own when \<open>c\<close> is on the self host and the
  driver's otherwise: the body makes no call when the entry's MAC address, as a string,
  equals the expected one, and none when the expected one does not parse; otherwise it
  makes one call, for the same link and IP address, with the parsed expected address.
  After the calls have succeeded, every such entry whose expected address parses has that
  address, or one whose string form is the expected string.
\<close>

theorem arp_repair:
  "arpsync_prepare net mc nl = Inr (v, entries) \<longrightarrow>
   GetSelfHost mc = Inr (av_host v) \<and>
   (\<exists>services. GetServices mc = Inr services \<and>
      (\<exists>s \<in> set services. Kind s = ''networkDriverService'' \<and>
         Service_Name s = PrimaryServiceName s \<and>
         (\<exists>d \<in> set (Containers s). HostUUID d = Host_UUID (av_host v) \<and>
            av_networkDriverMacAddress v = PrimaryMacAddress d))) \<and>
   (\<exists>containers. GetContainers mc = Inr containers \<and>
      (\<forall>ip c. map_of (av_containersMap v) ip = Some c \<longrightarrow>
         c \<in> set containers \<and> PrimaryIp c = ip)) \<and>
   (\<exists>calls. arpsync_doSync net mc nl = Inr calls \<and>
      set calls = {n. \<exists>e \<in> set entries. entry_call net v e = Some n} \<and>
      (\<forall>e c. on_bridge net v e \<and> container_of net v e = Some c \<longrightarrow>
         (HardwareAddr_String net (HardwareAddr e) = expected_of v c \<longrightarrow>
            entry_call net v e = None) \<and>
         (\<forall>err. ParseMAC net (expected_of v c) = Inl err \<longrightarrow> entry_call net v e = None) \<and>
         (\<forall>hw. HardwareAddr_String net (HardwareAddr e) \<noteq> expected_of v c \<and>
               ParseMAC net (expected_of v c) = Inr hw \<longrightarrow>
            (\<exists>n. entry_call net v e = Some n \<and> LinkIndex n = LinkIndex e \<and> IP n = IP e \<and>
                 HardwareAddr n = hw))) \<and>
      (\<forall>e' \<in> set (NeighSet_effects calls entries). \<forall>c hw.
         on_bridge net v e' \<and> container_of net v e' = Some c \<and>
         ParseMAC net (expected_of v c) = Inr hw \<longrightarrow>
         HardwareAddr e' = hw \<or>
         HardwareAddr_String net (HardwareAddr e') = expected_of v c))"
  (is "_ \<longrightarrow> ?concl")
proof
  assume p: "arpsync_prepare net mc nl = Inr (v, entries)"
  let ?calls = "syncEntries net (av_host v) (av_networkDriverMacAddress v) (av_bridgeLinkIndex v)
            (av_bridgeSubnet v) (av_containersMap v) entries"
  have 1: "arpsync_doSync net mc nl = Inr ?calls"
    using p by (rule doSync_prepared)
  have 2: "set ?calls = {n. \<exists>e \<in> set entries. entry_call net v e = Some n}"
    by (rule set_syncEntries)
  have 3: "\<forall>e c. on_bridge net v e \<and> container_of net v e = Some c \<longrightarrow>
         (HardwareAddr_String net (HardwareAddr e) = expected_of v c \<longrightarrow>
            entry_call net v e = None) \<and>
         (\<forall>err. ParseMAC net (expected_of v c) = Inl err \<longrightarrow> entry_call net v e = None) \<and>
         (\<forall>hw. HardwareAddr_String net (HardwareAddr e) \<noteq> expected_of v c \<and>
               ParseMAC net (expected_of v c) = Inr hw \<longrightarrow>
            (\<exists>n. entry_call net v e = Some n \<and> LinkIndex n = LinkIndex e \<and> IP n = IP e \<and>
                 HardwareAddr n = hw))"
  proof (intro allI impI conjI)
    fix e c
    assume h: "on_bridge net v e \<and> container_of net v e = Some c"
    then have b: "on_bridge net v e" and c: "container_of net v e = Some c"
      by simp_all
    show "entry_call net v e = None"
      if "HardwareAddr_String net (HardwareAddr e) = expected_of v c"
      using that by (rule call_for_entry(1) [OF b c])
    show "entry_call net v e = None" if "ParseMAC net (expected_of v c) = Inl err" for err
      using that by (rule call_for_entry(2) [OF b c])
    show "\<exists>n. entry_call net v e = Some n \<and> LinkIndex n = LinkIndex e \<and> IP n = IP e \<and>
                 HardwareAddr n = hw"
      if "HardwareAddr_String net (HardwareAddr e) \<noteq> expected_of v c \<and>
               ParseMAC net (expected_of v c) = Inr hw" for hw
      using that call_for_entry(3) [OF b c] by simp
  qed
  have 4: "\<forall>e' \<in> set (NeighSet_effects ?calls entries). \<forall>c hw.
         on_bridge net v e' \<and> container_of net v e' = Some c \<and>
         ParseMAC net (expected_of v c) = Inr hw \<longrightarrow>
         HardwareAddr e' = hw \<or>
         HardwareAddr_String net (HardwareAddr e') = expected_of v c"
  proof (intro ballI allI impI)
    fix e' c hw
    assume e': "e' \<in> set (NeighSet_effects ?calls entries)"
      and h: "on_bridge net v e' \<and> container_of net v e' = Some c \<and>
         ParseMAC net (expected_of v c) = Inr hw"
    show "HardwareAddr e' = hw \<or>
         HardwareAddr_String net (HardwareAddr e') = expected_of v c"
      by (rule after_step_converged [OF e']) (use h in simp_all)
  qed
  have main: "\<exists>calls. arpsync_doSync net mc nl = Inr calls \<and>
      set calls = {n. \<exists>e \<in> set entries. entry_call net v e = Some n} \<and>
      (\<forall>e c. on_bridge net v e \<and> container_of net v e = Some c \<longrightarrow>
         (HardwareAddr_String net (HardwareAddr e) = expected_of v c \<longrightarrow>
            entry_call net v e = None) \<and>
         (\<forall>err. ParseMAC net (expected_of v c) = Inl err \<longrightarrow> entry_call net v e = None) \<and>
         (\<forall>hw. HardwareAddr_String net (HardwareAddr e) \<noteq> expected_of v c \<and>
               ParseMAC net (expected_of v c) = Inr hw \<longrightarrow>
            (\<exists>n. entry_call net v e = Some n \<and> LinkIndex n = LinkIndex e \<and> IP n = IP e \<and>
                 HardwareAddr n = hw))) \<and>
      (\<forall>e' \<in> set (NeighSet_effects calls entries). \<forall>c hw.
         on_bridge net v e' \<and> container_of net v e' = Some c \<and>
         ParseMAC net (expected_of v c) = Inr hw \<longrightarrow>
         HardwareAddr e' = hw \<or>
         HardwareAddr_String net (HardwareAddr e') = expected_of v c)"
    using 1 2 3 4 by (intro exI [of _ ?calls] conjI)
  show ?concl
    using prepare_view [OF p] main by (intro conjI)
qed

theorem arp_repair_witness:
  "arpsync_prepare gonet
     (metadataWith ''02:dd:dd:dd:dd:dd''
        [containerOn ''H'' ''10.42.0.5'' ''02:aa:aa:aa:aa:05'' [],
         containerOn ''H2'' ''10.42.0.9'' ''02:99:99:99:99:09'' []])
     (kernelWith [docker0]
        [neigh [10, 42, 0, 5] [2, 187, 187, 187, 187, 187],
         neigh [10, 42, 0, 9] [2, 204, 204, 204, 204, 204]]) =
     Inr (viewOf ''02:dd:dd:dd:dd:dd''
            [(''10.42.0.5'', containerOn ''H'' ''10.42.0.5'' ''02:aa:aa:aa:aa:05'' []),
             (''10.42.0.9'', containerOn ''H2'' ''10.42.0.9'' ''02:99:99:99:99:09'' [])],
          [neigh [10, 42, 0, 5] [2, 187, 187, 187, 187, 187],
           neigh [10, 42, 0, 9] [2, 204, 204, 204, 204, 204]]) \<and>
   (\<exists>n. entry_call gonet
          (viewOf ''02:dd:dd:dd:dd:dd''
            [(''10.42.0.5'', containerOn ''H'' ''10.42.0.5'' ''02:aa:aa:aa:aa:05'' []),
             (''10.42.0.9'', containerOn ''H2'' ''10.42.0.9'' ''02:99:99:99:99:09'' [])])
          (neigh [10, 42, 0, 5] [2, 187, 187, 187, 187, 187]) = Some n \<and>
        LinkIndex n = 3 \<and> IP n = [10, 42, 0, 5] \<and> HardwareAddr n = [2, 170, 170, 170, 170, 5]) \<and>
   (\<exists>n. entry_call gonet
          (viewOf ''02:dd:dd:dd:dd:dd''
            [(''10.42.0.5'', containerOn ''H'' ''10.42.0.5'' ''02:aa:aa:aa:aa:05'' []),
             (''10.42.0.9'', containerOn ''H2'' ''10.42.0.9'' ''02:99:99:99:99:09'' [])])
          (neigh [10, 42, 0, 9] [2, 204, 204, 204, 204, 204]) = Some n \<and>
        LinkIndex n = 3 \<and> IP n = [10, 42, 0, 9] \<and>
        HardwareAddr n = [2, 221, 221, 221, 221, 221]) \<and>
   entry_call gonet
     (viewOf ''02:dd:dd:dd:dd:dd''
            [(''10.42.0.5'', containerOn ''H'' ''10.42.0.5'' ''02:aa:aa:aa:aa:05'' []),
             (''10.42.0.9'', containerOn ''H2'' ''10.42.0.9'' ''02:99:99:99:99:09'' [])])
     (neigh [10, 42, 0, 5] [2, 170, 170, 170, 170, 5]) = None"
proof -
  let ?c1 = "containerOn ''H'' ''10.42.0.5'' ''02:aa:aa:aa:aa:05'' []"
  let ?c2 = "containerOn ''H2'' ''10.42.0.9'' ''02:99:99:99:99:09'' []"
  let ?e1 = "neigh [10, 42, 0, 5] [2, 187, 187, 187, 187, 187]"
  let ?e2 = "neigh [10, 42, 0, 9] [2, 204, 204, 204, 204, 204]"
  let ?e3 = "neigh [10, 42, 0, 5] [2, 170, 170, 170, 170, 5]"
  let ?mc = "metadataWith ''02:dd:dd:dd:dd:dd'' [?c1, ?c2]"
  let ?nl = "kernelWith [docker0] [?e1, ?e2]"
  let ?v = "viewOf ''02:dd:dd:dd:dd:dd'' [(''10.42.0.5'', ?c1), (''10.42.0.9'', ?c2)]"
  have p: "arpsync_prepare gonet ?mc ?nl = Inr (?v, [?e1, ?e2])"
    by code_simp
  have b1: "on_bridge gonet ?v ?e1 \<and> container_of gonet ?v ?e1 = Some ?c1"
    by code_simp
  have b2: "on_bridge gonet ?v ?e2 \<and> container_of gonet ?v ?e2 = Some ?c2"
    by code_simp
  have b3: "on_bridge gonet ?v ?e3 \<and> container_of gonet ?v ?e3 = Some ?c1"
    by code_simp
  have d1: "HardwareAddr_String gonet (HardwareAddr ?e1) \<noteq> expected_of ?v ?c1 \<and>
      ParseMAC gonet (expected_of ?v ?c1) = Inr [2, 170, 170, 170, 170, 5]"
    by code_simp
  have d2: "HardwareAddr_String gonet (HardwareAddr ?e2) \<noteq> expected_of ?v ?c2 \<and>
      ParseMAC gonet (expected_of ?v ?c2) = Inr [2, 221, 221, 221, 221, 221]"
    by code_simp
  have d3: "HardwareAddr_String gonet (HardwareAddr ?e3) = expected_of ?v ?c1"
    by code_simp
  from arp_repair [of gonet ?mc ?nl ?v "[?e1, ?e2]"] p
  have r: "\<forall>e c. on_bridge gonet ?v e \<and> container_of gonet ?v e = Some c \<longrightarrow>
         (HardwareAddr_String gonet (HardwareAddr e) = expected_of ?v c \<longrightarrow>
            entry_call gonet ?v e = None) \<and>
         (\<forall>err. ParseMAC gonet (expected_of ?v c) = Inl err \<longrightarrow> entry_call gonet ?v e = None) \<and>
         (\<forall>hw. HardwareAddr_String gonet (HardwareAddr e) \<noteq> expected_of ?v c \<and>
               ParseMAC gonet (expected_of ?v c) = Inr hw \<longrightarrow>
            (\<exists>n. entry_call gonet ?v e = Some n \<and> LinkIndex n = LinkIndex e \<and> IP n = IP e \<and>
                 HardwareAddr n = hw))"
    by blast
  have n1: "\<exists>n. entry_call gonet ?v ?e1 = Some n \<and> LinkIndex n = LinkIndex ?e1 \<and>
      IP n = IP ?e1 \<and> HardwareAddr n = [2, 170, 170, 170, 170, 5]"
    using r [rule_format, OF b1] d1 by blast
  have n2: "\<exists>n. entry_call gonet ?v ?e2 = Some n \<and> LinkIndex n = LinkIndex ?e2 \<and>
      IP n = IP ?e2 \<and> HardwareAddr n = [2, 221, 221, 221, 221, 221]"
    using r [rule_format, OF b2] d2 by blast
  have n3: "entry_call gonet ?v ?e3 = None"
    using r [rule_format, OF b3] d3 by blast
  show ?thesis
    using p n1 n2 n3 by simp
qed

lemma outside_untargeted:
  assumes out: "\<not> on_bridge net v e \<or> container_of net v e = None"
    and n: "n \<in> set (syncEntries net (av_host v) (av_networkDriverMacAddress v)
        (av_bridgeLinkIndex v) (av_bridgeSubnet v) (av_containersMap v) entries)"
  shows "\<not> same_neigh e n"
proof
  assume sn: "same_neigh e n"
  from n obtain e2 where call: "entry_call net v e2 = Some n"
    by (auto simp: set_syncEntries)
  have "same_neigh e e2"
    using sn syncEntry_same_neigh [OF call] by (simp add: same_neigh_def)
  then have "on_bridge net v e = on_bridge net v e2"
    and "container_of net v e = container_of net v e2"
    by (simp_all add: same_neigh_def)
  with syncEntry_SomeD [OF call] out show False
    by auto
qed

text \<open>
  Claim C4. The only mutation of a step is \<^verbatim>\<open>NeighSet\<close>; \<^verbatim>\<open>NeighDel\<close> is never
  called. Every call is for the link and IP address of an entry that is on the bridge, in
  the bridge subnet, and whose IP address maps to a container. For an entry outside the
  bridge or the subnet, or whose IP address maps to no container, the body makes no
  call, no call of the step is for its link and address, and the entry is in the table
  unchanged after the calls.
\<close>

theorem arp_frame:
  "arpsync_prepare net mc nl = Inr (v, entries) \<longrightarrow>
   (\<exists>calls. arpsync_doSync net mc nl = Inr calls \<and>
      (\<forall>n \<in> set calls. \<exists>e \<in> set entries. on_bridge net v e \<and>
         (\<exists>c. container_of net v e = Some c) \<and> same_neigh n e) \<and>
      (\<forall>e. \<not> on_bridge net v e \<or> container_of net v e = None \<longrightarrow>
         entry_call net v e = None \<and> (\<forall>n \<in> set calls. \<not> same_neigh e n)) \<and>
      (\<forall>i < length entries.
         \<not> on_bridge net v (entries ! i) \<or> container_of net v (entries ! i) = None \<longrightarrow>
         NeighSet_effects calls entries ! i = entries ! i))"
proof
  assume p: "arpsync_prepare net mc nl = Inr (v, entries)"
  let ?calls = "syncEntries net (av_host v) (av_networkDriverMacAddress v) (av_bridgeLinkIndex v)
            (av_bridgeSubnet v) (av_containersMap v) entries"
  have 1: "arpsync_doSync net mc nl = Inr ?calls"
    using p by (rule doSync_prepared)
  have 2: "\<forall>n \<in> set ?calls. \<exists>e \<in> set entries. on_bridge net v e \<and>
         (\<exists>c. container_of net v e = Some c) \<and> same_neigh n e"
  proof
    fix n
    assume "n \<in> set ?calls"
    then obtain e where e: "e \<in> set entries" and call: "entry_call net v e = Some n"
      by (auto simp: set_syncEntries)
    from syncEntry_SomeD [OF call] syncEntry_same_neigh [OF call] e
    show "\<exists>e \<in> set entries. on_bridge net v e \<and>
         (\<exists>c. container_of net v e = Some c) \<and> same_neigh n e"
      by blast
  qed
  have 3: "\<forall>e. \<not> on_bridge net v e \<or> container_of net v e = None \<longrightarrow>
         entry_call net v e = None \<and> (\<forall>n \<in> set ?calls. \<not> same_neigh e n)"
  proof (intro allI impI conjI ballI)
    fix e
    assume out: "\<not> on_bridge net v e \<or> container_of net v e = None"
    show "entry_call net v e = None"
      using out by (rule syncEntry_outside)
    show "\<not> same_neigh e n" if "n \<in> set ?calls" for n
      using out that by (rule outside_untargeted)
  qed
  have 4: "\<forall>i < length entries.
         \<not> on_bridge net v (entries ! i) \<or> container_of net v (entries ! i) = None \<longrightarrow>
         NeighSet_effects ?calls entries ! i = entries ! i"
  proof (intro allI impI)
    fix i
    assume i: "i < length entries"
      and out: "\<not> on_bridge net v (entries ! i) \<or> container_of net v (entries ! i) = None"
    have "\<not> same_neigh (entries ! i) n" if "n \<in> set ?calls" for n
      using out that by (rule outside_untargeted)
    then have "\<forall>n \<in> set ?calls. \<not> same_neigh (entries ! i) n"
      by blast
    with i show "NeighSet_effects ?calls entries ! i = entries ! i"
      by (rule NeighSet_effects_nth_untouched)
  qed
  show "\<exists>calls. arpsync_doSync net mc nl = Inr calls \<and>
      (\<forall>n \<in> set calls. \<exists>e \<in> set entries. on_bridge net v e \<and>
         (\<exists>c. container_of net v e = Some c) \<and> same_neigh n e) \<and>
      (\<forall>e. \<not> on_bridge net v e \<or> container_of net v e = None \<longrightarrow>
         entry_call net v e = None \<and> (\<forall>n \<in> set calls. \<not> same_neigh e n)) \<and>
      (\<forall>i < length entries.
         \<not> on_bridge net v (entries ! i) \<or> container_of net v (entries ! i) = None \<longrightarrow>
         NeighSet_effects calls entries ! i = entries ! i)"
    using 1 2 3 4 by (intro exI [of _ ?calls] conjI)
qed

theorem arp_frame_witness:
  "arpsync_doSync gonet
     (metadataWith ''02:dd:dd:dd:dd:dd'' [containerOn ''H'' ''10.42.0.5'' ''02:aa:aa:aa:aa:05'' []])
     (kernelWith [docker0]
        [neigh [10, 42, 0, 5] [2, 187, 187, 187, 187, 187],
         (neigh [10, 42, 0, 5] [2, 187, 187, 187, 187, 187])\<lparr>LinkIndex := 7\<rparr>,
         neigh [192, 168, 1, 1] [2, 187, 187, 187, 187, 187],
         neigh [10, 42, 0, 77] [2, 187, 187, 187, 187, 187]]) =
     Inr [(neigh [10, 42, 0, 5] [2, 170, 170, 170, 170, 5])\<lparr>Type := NUD_REACHABLE\<rparr>] \<and>
   NeighSet_effects [(neigh [10, 42, 0, 5] [2, 170, 170, 170, 170, 5])\<lparr>Type := NUD_REACHABLE\<rparr>]
        [neigh [10, 42, 0, 5] [2, 187, 187, 187, 187, 187],
         (neigh [10, 42, 0, 5] [2, 187, 187, 187, 187, 187])\<lparr>LinkIndex := 7\<rparr>,
         neigh [192, 168, 1, 1] [2, 187, 187, 187, 187, 187],
         neigh [10, 42, 0, 77] [2, 187, 187, 187, 187, 187]] ! 1 =
     (neigh [10, 42, 0, 5] [2, 187, 187, 187, 187, 187])\<lparr>LinkIndex := 7\<rparr> \<and>
   NeighSet_effects [(neigh [10, 42, 0, 5] [2, 170, 170, 170, 170, 5])\<lparr>Type := NUD_REACHABLE\<rparr>]
        [neigh [10, 42, 0, 5] [2, 187, 187, 187, 187, 187],
         (neigh [10, 42, 0, 5] [2, 187, 187, 187, 187, 187])\<lparr>LinkIndex := 7\<rparr>,
         neigh [192, 168, 1, 1] [2, 187, 187, 187, 187, 187],
         neigh [10, 42, 0, 77] [2, 187, 187, 187, 187, 187]] ! 2 =
     neigh [192, 168, 1, 1] [2, 187, 187, 187, 187, 187] \<and>
   NeighSet_effects [(neigh [10, 42, 0, 5] [2, 170, 170, 170, 170, 5])\<lparr>Type := NUD_REACHABLE\<rparr>]
        [neigh [10, 42, 0, 5] [2, 187, 187, 187, 187, 187],
         (neigh [10, 42, 0, 5] [2, 187, 187, 187, 187, 187])\<lparr>LinkIndex := 7\<rparr>,
         neigh [192, 168, 1, 1] [2, 187, 187, 187, 187, 187],
         neigh [10, 42, 0, 77] [2, 187, 187, 187, 187, 187]] ! 3 =
     neigh [10, 42, 0, 77] [2, 187, 187, 187, 187, 187]"
proof -
  let ?c1 = "containerOn ''H'' ''10.42.0.5'' ''02:aa:aa:aa:aa:05'' []"
  let ?es = "[neigh [10, 42, 0, 5] [2, 187, 187, 187, 187, 187],
         (neigh [10, 42, 0, 5] [2, 187, 187, 187, 187, 187])\<lparr>LinkIndex := 7\<rparr>,
         neigh [192, 168, 1, 1] [2, 187, 187, 187, 187, 187],
         neigh [10, 42, 0, 77] [2, 187, 187, 187, 187, 187]]"
  let ?mc = "metadataWith ''02:dd:dd:dd:dd:dd'' [?c1]"
  let ?nl = "kernelWith [docker0] ?es"
  let ?v = "viewOf ''02:dd:dd:dd:dd:dd'' [(''10.42.0.5'', ?c1)]"
  let ?call = "(neigh [10, 42, 0, 5] [2, 170, 170, 170, 170, 5])\<lparr>Type := NUD_REACHABLE\<rparr>"
  have p: "arpsync_prepare gonet ?mc ?nl = Inr (?v, ?es)"
    by code_simp
  have d: "arpsync_doSync gonet ?mc ?nl = Inr [?call]"
    by code_simp
  have o1: "\<not> on_bridge gonet ?v (?es ! 1)"
    by code_simp
  have o2: "\<not> on_bridge gonet ?v (?es ! 2)"
    by code_simp
  have o3: "container_of gonet ?v (?es ! 3) = None"
    by code_simp
  from arp_frame [of gonet ?mc ?nl ?v ?es] p d
  have f: "\<forall>i < length ?es.
         \<not> on_bridge gonet ?v (?es ! i) \<or> container_of gonet ?v (?es ! i) = None \<longrightarrow>
         NeighSet_effects [?call] ?es ! i = ?es ! i"
    by auto
  have "NeighSet_effects [?call] ?es ! 1 = ?es ! 1"
    using f [rule_format, of 1] o1 by simp
  moreover have "NeighSet_effects [?call] ?es ! 2 = ?es ! 2"
    using f [rule_format, of 2] o2 by simp
  moreover have "NeighSet_effects [?call] ?es ! 3 = ?es ! 3"
    using f [rule_format, of 3] o3 by simp
  ultimately show ?thesis
    using d by simp
qed


subsection \<open>The second step, with the CNI config ranged over anew\<close>










section \<open>vethsync: the links deleted\<close>

lemma map_of_update: "map_of (AList.update k v al) = (map_of al)(k \<mapsto> v)"
  by (rule update_conv')

lemma veths_range_mem:
  "(k, l) \<in> set (veths_range vethPrefix lblm alllinks veths) \<Longrightarrow>
   (k, l) \<in> set veths \<or>
   (l \<in> set alllinks \<and> HasPrefix (Link_Name l) vethPrefix \<and>
    map_of lblm (MasterIndex l) \<noteq> None \<and> k = Itoa (Index l))"
proof (induction alllinks arbitrary: veths)
  case Nil
  then show ?case by simp
next
  case (Cons a alllinks)
  show ?case
  proof (cases "HasPrefix (Link_Name a) vethPrefix \<and> map_of lblm (MasterIndex a) \<noteq> None")
    case False
    then have "veths_range vethPrefix lblm (a # alllinks) veths =
        veths_range vethPrefix lblm alllinks veths"
      by (auto split: option.splits)
    with Cons show ?thesis by auto
  next
    case True
    then have "veths_range vethPrefix lblm (a # alllinks) veths =
        veths_range vethPrefix lblm alllinks (AList.update (Itoa (Index a)) a veths)"
      by (auto split: option.splits)
    with Cons.prems Cons.IH [of "AList.update (Itoa (Index a)) a veths"]
    have "(k, l) \<in> set (AList.update (Itoa (Index a)) a veths) \<or>
        (l \<in> set alllinks \<and> HasPrefix (Link_Name l) vethPrefix \<and>
         map_of lblm (MasterIndex l) \<noteq> None \<and> k = Itoa (Index l))"
      by simp
    then show ?thesis
      using True set_update_subset [of "Itoa (Index a)" a veths] by auto
  qed
qed

lemma localBridgesLinksMap_range_mem:
  "(i, b) \<in> set (localBridgesLinksMap_range localBridges alllinks m) \<Longrightarrow>
   (i, b) \<in> set m \<or>
   (b \<in> set alllinks \<and> map_of localBridges (Link_Name b) \<noteq> None \<and> i = Index b)"
proof (induction alllinks arbitrary: m)
  case Nil
  then show ?case by simp
next
  case (Cons a alllinks)
  show ?case
  proof (cases "map_of localBridges (Link_Name a)")
    case None
    with Cons show ?thesis by auto
  next
    case (Some found)
    with Cons.prems Cons.IH [of "AList.update (Index a) a m"]
    have "(i, b) \<in> set (AList.update (Index a) a m) \<or>
        (b \<in> set alllinks \<and> map_of localBridges (Link_Name b) \<noteq> None \<and> i = Index b)"
      by simp
    then show ?thesis
      using Some set_update_subset [of "Index a" a m] by auto
  qed
qed

lemma GetDanglingVeths_range_mem:
  "(k, v) \<in> set (GetDanglingVeths_range hostVethMap containerVethMap dangling) \<Longrightarrow>
   (k, v) \<in> set dangling \<or> ((k, v) \<in> set hostVethMap \<and> map_of containerVethMap k = None)"
proof (induction hostVethMap arbitrary: dangling)
  case Nil
  then show ?case by simp
next
  case (Cons kv hostVethMap)
  obtain k' v' where kv: "kv = (k', v')" by (cases kv)
  show ?case
  proof (cases "map_of containerVethMap k'")
    case None
    with Cons.prems Cons.IH [of "AList.update k' v' dangling"] kv
    have "(k, v) \<in> set (AList.update k' v' dangling) \<or>
        ((k, v) \<in> set hostVethMap \<and> map_of containerVethMap k = None)"
      by simp
    then show ?thesis
      using None kv set_update_subset [of k' v' dangling] by auto
  next
    case (Some found)
    with Cons kv show ?thesis by auto
  qed
qed

lemma CleanUpDanglingVeths_map: "CleanUpDanglingVeths dangling = map snd dangling"
  by (induction dangling rule: CleanUpDanglingVeths.induct) simp_all

lemma containerVethIndices_range_dom:
  "dom (map_of (containerVethIndices_range dc containers m)) =
     dom (map_of m) \<union>
     {k. \<exists>c \<in> set containers. NetworkMode c \<noteq> ''host'' \<and> vethIndex_of dc c = Inr k}"
proof (induction containers arbitrary: m)
  case Nil
  then show ?case by simp
next
  case (Cons c containers)
  show ?case
  proof (cases "NetworkMode c = ''host''")
    case True
    then show ?thesis using Cons.IH [of m] by auto
  next
    case False
    show ?thesis
    proof (cases "vethIndex_of dc c")
      case (Inl err)
      then show ?thesis using False Cons.IH [of m] by auto
    next
      case (Inr k)
      then show ?thesis
        using False Cons.IH [of "AList.update k True m"]
        by (auto simp: map_of_update split: if_splits)
    qed
  qed
qed

lemma veths_range_distinct:
  "distinct (map fst veths) \<Longrightarrow>
   distinct (map fst (veths_range vethPrefix lblm alllinks veths))"
  by (induction alllinks arbitrary: veths) (auto simp: distinct_update split: option.splits)

lemma GetDanglingVeths_range_map_of:
  "distinct (map fst hostVethMap) \<Longrightarrow>
   map_of (GetDanglingVeths_range hostVethMap containerVethMap dangling) k =
     (case map_of hostVethMap k of
        Some v \<Rightarrow> if map_of containerVethMap k = None then Some v else map_of dangling k
      | None \<Rightarrow> map_of dangling k)"
proof (induction hostVethMap arbitrary: dangling)
  case Nil
  then show ?case by simp
next
  case (Cons kv hostVethMap)
  obtain k' v' where kv: "kv = (k', v')" by (cases kv)
  from Cons.prems kv have d: "distinct (map fst hostVethMap)"
    and fresh: "map_of hostVethMap k' = None"
    by (auto simp: map_of_eq_None_iff)
  show ?case
  proof (cases "map_of containerVethMap k'")
    case None
    show ?thesis
      using None kv fresh Cons.IH [OF d, of "AList.update k' v' dangling"]
      by (auto simp: map_of_update split: option.splits)
  next
    case (Some found)
    show ?thesis
      using Some kv fresh Cons.IH [OF d, of dangling]
      by (auto split: option.splits)
  qed
qed

lemma GetHostViewVethMap_InrD:
  assumes "GetHostViewVethMap vethPrefix nl LocalNetworks = Inr host"
  obtains alllinks localNetworks where "LinkList nl = Inr alllinks"
    and "LocalNetworks = Inr localNetworks"
    and "host = veths_range vethPrefix
           (localBridgesLinksMap_range (localBridges_range localNetworks []) alllinks [])
           alllinks []"
  using assms
  by (auto simp: GetHostViewVethMap_def Let_def split: sum.splits if_splits)

text \<open>
  Claim C2. When the host view and the container view have been built, the links
  \<^verbatim>\<open>CleanUpDanglingVeths\<close> deletes are the values of
  \<^verbatim>\<open>GetDanglingVeths(host, container)\<close>, which is the host view without the keys of the
  container view. Every link deleted is a link of the host whose name starts with the
  prefix, whose \<^verbatim>\<open>MasterIndex\<close> is the index of a link named as a local bridge, and
  whose index, as a decimal string, is not a key of the container view: no container
  that is not host-networked reports it as the \<^verbatim>\<open>ParentIndex\<close> of its \<^verbatim>\<open>eth0\<close>.
\<close>

theorem veth_safety:
  "GetHostViewVethMap vethPrefix nl LocalNetworks = Inr host \<and>
   GetContainersViewVethMapByEnteringNS dc = Inr container \<longrightarrow>
   set (CleanUpDanglingVeths (GetDanglingVeths host container)) =
     snd ` set (GetDanglingVeths host container) \<and>
   (\<forall>k. map_of (GetDanglingVeths host container) k =
          (if map_of container k = None then map_of host k else None)) \<and>
   (\<forall>l \<in> set (CleanUpDanglingVeths (GetDanglingVeths host container)).
      \<exists>alllinks localNetworks containers.
        LinkList nl = Inr alllinks \<and> LocalNetworks = Inr localNetworks \<and>
        ContainerList dc = Inr containers \<and>
        l \<in> set alllinks \<and>
        HasPrefix (Link_Name l) vethPrefix \<and>
        (\<exists>b \<in> set alllinks.
           map_of (localBridges_range localNetworks []) (Link_Name b) \<noteq> None \<and>
           Index b = MasterIndex l) \<and>
        map_of container (Itoa (Index l)) = None \<and>
        (\<forall>c \<in> set containers. NetworkMode c \<noteq> ''host'' \<longrightarrow>
           vethIndex_of dc c \<noteq> Inr (Itoa (Index l))) \<and>
        (\<forall>c \<in> set containers. \<forall>ns link.
           NetworkMode c \<noteq> ''host'' \<and> EnterNS dc (ID c) = Inr ns \<and> ns ''eth0'' = Inr link \<longrightarrow>
           ParentIndex link \<noteq> Index l))"
proof (intro impI, elim conjE)
  assume h: "GetHostViewVethMap vethPrefix nl LocalNetworks = Inr host"
    and c: "GetContainersViewVethMapByEnteringNS dc = Inr container"
  from h obtain alllinks localNetworks where ll: "LinkList nl = Inr alllinks"
    and ln: "LocalNetworks = Inr localNetworks"
    and host: "host = veths_range vethPrefix
           (localBridgesLinksMap_range (localBridges_range localNetworks []) alllinks [])
           alllinks []"
    by (rule GetHostViewVethMap_InrD)
  let ?lblm = "localBridgesLinksMap_range (localBridges_range localNetworks []) alllinks []"
  from c obtain containers where cl: "ContainerList dc = Inr containers"
    and cont: "container = containerVethIndices_range dc containers []"
    by (auto simp: GetContainersViewVethMapByEnteringNS_def split: sum.splits)
  have dist: "distinct (map fst host)"
    unfolding host by (rule veths_range_distinct) simp
  have 1: "set (CleanUpDanglingVeths (GetDanglingVeths host container)) =
     snd ` set (GetDanglingVeths host container)"
    by (simp add: CleanUpDanglingVeths_map)
  have 2: "\<forall>k. map_of (GetDanglingVeths host container) k =
          (if map_of container k = None then map_of host k else None)"
    using GetDanglingVeths_range_map_of [OF dist, of container "[]"]
    by (auto simp: GetDanglingVeths_def split: option.splits)
  have 3: "\<exists>alllinks localNetworks containers.
        LinkList nl = Inr alllinks \<and> LocalNetworks = Inr localNetworks \<and>
        ContainerList dc = Inr containers \<and>
        l \<in> set alllinks \<and>
        HasPrefix (Link_Name l) vethPrefix \<and>
        (\<exists>b \<in> set alllinks.
           map_of (localBridges_range localNetworks []) (Link_Name b) \<noteq> None \<and>
           Index b = MasterIndex l) \<and>
        map_of container (Itoa (Index l)) = None \<and>
        (\<forall>c \<in> set containers. NetworkMode c \<noteq> ''host'' \<longrightarrow>
           vethIndex_of dc c \<noteq> Inr (Itoa (Index l))) \<and>
        (\<forall>c \<in> set containers. \<forall>ns link.
           NetworkMode c \<noteq> ''host'' \<and> EnterNS dc (ID c) = Inr ns \<and> ns ''eth0'' = Inr link \<longrightarrow>
           ParentIndex link \<noteq> Index l)"
    if l: "l \<in> set (CleanUpDanglingVeths (GetDanglingVeths host container))" for l
  proof -
    from l obtain k where kd: "(k, l) \<in> set (GetDanglingVeths host container)"
      by (auto simp: CleanUpDanglingVeths_map)
    then have kh: "(k, l) \<in> set host" and kc: "map_of container k = None"
      using GetDanglingVeths_range_mem [of k l host container "[]"]
      by (auto simp: GetDanglingVeths_def)
    from kh have lin: "l \<in> set alllinks" and pre: "HasPrefix (Link_Name l) vethPrefix"
      and mas: "map_of ?lblm (MasterIndex l) \<noteq> None" and k: "k = Itoa (Index l)"
      using veths_range_mem [of k l vethPrefix ?lblm alllinks "[]"] host by auto
    from mas obtain b where "(MasterIndex l, b) \<in> set ?lblm"
      by (auto dest: map_of_SomeD)
    then have br: "b \<in> set alllinks \<and>
        map_of (localBridges_range localNetworks []) (Link_Name b) \<noteq> None \<and>
        Index b = MasterIndex l"
      using localBridgesLinksMap_range_mem
        [of "MasterIndex l" b "localBridges_range localNetworks []" alllinks "[]"]
      by auto
    have nodom: "Itoa (Index l) \<notin> dom (map_of (containerVethIndices_range dc containers []))"
      using kc k cont by (simp add: domIff)
    then have nv: "\<forall>c \<in> set containers. NetworkMode c \<noteq> ''host'' \<longrightarrow>
           vethIndex_of dc c \<noteq> Inr (Itoa (Index l))"
      unfolding containerVethIndices_range_dom by auto
    have np: "\<forall>c \<in> set containers. \<forall>ns link.
           NetworkMode c \<noteq> ''host'' \<and> EnterNS dc (ID c) = Inr ns \<and> ns ''eth0'' = Inr link \<longrightarrow>
           ParentIndex link \<noteq> Index l"
    proof (intro ballI allI impI notI)
      fix c ns link
      assume "c \<in> set containers"
        and "NetworkMode c \<noteq> ''host'' \<and> EnterNS dc (ID c) = Inr ns \<and> ns ''eth0'' = Inr link"
        and "ParentIndex link = Index l"
      then have "c \<in> set containers \<and> NetworkMode c \<noteq> ''host'' \<and>
          vethIndex_of dc c = Inr (Itoa (Index l))"
        by (simp add: vethIndex_of_def)
      with nv show False by blast
    qed
    show ?thesis
      using ll ln cl lin pre br kc k nv np by blast
  qed
  show "set (CleanUpDanglingVeths (GetDanglingVeths host container)) =
     snd ` set (GetDanglingVeths host container) \<and>
   (\<forall>k. map_of (GetDanglingVeths host container) k =
          (if map_of container k = None then map_of host k else None)) \<and>
   (\<forall>l \<in> set (CleanUpDanglingVeths (GetDanglingVeths host container)).
      \<exists>alllinks localNetworks containers.
        LinkList nl = Inr alllinks \<and> LocalNetworks = Inr localNetworks \<and>
        ContainerList dc = Inr containers \<and>
        l \<in> set alllinks \<and>
        HasPrefix (Link_Name l) vethPrefix \<and>
        (\<exists>b \<in> set alllinks.
           map_of (localBridges_range localNetworks []) (Link_Name b) \<noteq> None \<and>
           Index b = MasterIndex l) \<and>
        map_of container (Itoa (Index l)) = None \<and>
        (\<forall>c \<in> set containers. NetworkMode c \<noteq> ''host'' \<longrightarrow>
           vethIndex_of dc c \<noteq> Inr (Itoa (Index l))) \<and>
        (\<forall>c \<in> set containers. \<forall>ns link.
           NetworkMode c \<noteq> ''host'' \<and> EnterNS dc (ID c) = Inr ns \<and> ns ''eth0'' = Inr link \<longrightarrow>
           ParentIndex link \<noteq> Index l))"
    using 1 2 3 by (intro conjI ballI)
qed

theorem veth_safety_witness:
  "GetHostViewVethMap ''veth'' (kernelWith [docker0, veth ''vethA'' 42, veth ''vethB'' 43] [])
     (Inr [networkN]) = Inr [(''42'', veth ''vethA'' 42), (''43'', veth ''vethB'' 43)] \<and>
   GetContainersViewVethMapByEnteringNS (dockerWith 42) = Inr [(''42'', True)] \<and>
   CleanUpDanglingVeths
     (GetDanglingVeths [(''42'', veth ''vethA'' 42), (''43'', veth ''vethB'' 43)] [(''42'', True)]) =
     [veth ''vethB'' 43] \<and>
   HasPrefix (Link_Name (veth ''vethB'' 43)) ''veth'' \<and>
   map_of [(''42'', True)] (Itoa (Index (veth ''vethB'' 43))) = None \<and>
   map_of (GetDanglingVeths [(''42'', veth ''vethA'' 42), (''43'', veth ''vethB'' 43)]
             [(''42'', True)]) ''42'' = None"
proof -
  let ?nl = "kernelWith [docker0, veth ''vethA'' 42, veth ''vethB'' 43] []"
  let ?host = "[(''42'', veth ''vethA'' 42), (''43'', veth ''vethB'' 43)]"
  let ?container = "[(''42'', True)]"
  have h: "GetHostViewVethMap ''veth'' ?nl (Inr [networkN]) = Inr ?host"
    by code_simp
  have c: "GetContainersViewVethMapByEnteringNS (dockerWith 42) = Inr ?container"
    by code_simp
  have d: "CleanUpDanglingVeths (GetDanglingVeths ?host ?container) = [veth ''vethB'' 43]"
    by code_simp
  note t = veth_safety [of "''veth''" ?nl "Inr [networkN]" ?host "dockerWith 42" ?container]
  from t h c have 2: "\<forall>k. map_of (GetDanglingVeths ?host ?container) k =
          (if map_of ?container k = None then map_of ?host k else None)"
    by blast
  from t h c d have 3: "HasPrefix (Link_Name (veth ''vethB'' 43)) ''veth'' \<and>
      map_of ?container (Itoa (Index (veth ''vethB'' 43))) = None"
    by auto
  show ?thesis
    using h c d 3 2 [rule_format, of "''42''"] by simp
qed

section \<open>vethsync: bridge discovery\<close>

lemma range_Nil: "getBridgeInfoFromCNIConfig_range [] acc = acc"
  by (cases acc) simp

lemma range_Cons:
  "getBridgeInfoFromCNIConfig_range (e # cniConf) acc =
     getBridgeInfoFromCNIConfig_range cniConf (cni_step (snd e) acc)"
  by (cases e; cases acc) (auto simp: cni_step_def split: option.splits)

lemma cni_step_Some: "bridge_of config = Some b \<Longrightarrow> cni_step config acc = (b, snd acc)"
  by (auto simp: cni_step_def bridge_of_def split: option.splits)

lemma cni_step_None:
  "bridge_of config = None \<Longrightarrow> \<exists>bridge err. cni_step config acc = (bridge, Some err)"
  by (auto simp: cni_step_def bridge_of_def split: option.splits)

lemma range_append:
  "getBridgeInfoFromCNIConfig_range (pre @ post) acc =
     getBridgeInfoFromCNIConfig_range post (getBridgeInfoFromCNIConfig_range pre acc)"
  by (induction pre arbitrary: acc) (simp_all add: range_Nil range_Cons)

lemma range_error_kept:
  "\<exists>err'. snd (getBridgeInfoFromCNIConfig_range cniConf (bridge, Some err)) = Some err'"
proof (induction cniConf arbitrary: bridge err)
  case Nil
  then show ?case by simp
next
  case (Cons e cniConf)
  show ?case
  proof (cases "bridge_of (snd e)")
    case None
    from cni_step_None [OF None, of "(bridge, Some err)"] obtain bridge' err' where
      "cni_step (snd e) (bridge, Some err) = (bridge', Some err')"
      by blast
    then show ?thesis
      using Cons.IH [of bridge' err'] by (simp add: range_Cons)
  next
    case (Some b)
    then show ?thesis
      using Cons.IH [of b err] by (simp add: range_Cons cni_step_Some)
  qed
qed

lemma range_error_iff:
  "snd (getBridgeInfoFromCNIConfig_range cniConf (bridge, None)) = None \<longleftrightarrow>
     (\<forall>e \<in> set cniConf. bridge_of (snd e) \<noteq> None)"
proof (induction cniConf arbitrary: bridge)
  case Nil
  then show ?case by simp
next
  case (Cons e cniConf)
  show ?case
  proof (cases "bridge_of (snd e)")
    case None
    from cni_step_None [OF None, of "(bridge, None)"] obtain bridge' err' where
      "cni_step (snd e) (bridge, None) = (bridge', Some err')"
      by blast
    then show ?thesis
      using None range_error_kept [of cniConf bridge' err'] by (auto simp: range_Cons)
  next
    case (Some b)
    then show ?thesis
      using Cons.IH [of b] by (simp add: range_Cons cni_step_Some)
  qed
qed

lemma range_wellformed_error:
  "\<forall>e \<in> set cniConf. bridge_of (snd e) \<noteq> None \<Longrightarrow>
   snd (getBridgeInfoFromCNIConfig_range cniConf (bridge, lastErr)) = lastErr"
proof (induction cniConf arbitrary: bridge)
  case Nil
  then show ?case by simp
next
  case (Cons e cniConf)
  from Cons.prems obtain b where b: "bridge_of (snd e) = Some b" by auto
  show ?case
    using b Cons.IH [of b] Cons.prems by (simp add: range_Cons cni_step_Some)
qed

lemma last_bridge:
  assumes "\<forall>e \<in> set pre. bridge_of (snd e) \<noteq> None" and "bridge_of config = Some b"
  shows "getBridgeInfoFromCNIConfig (pre @ [(name, config)]) = (b, None)"
proof -
  obtain b0 where pre: "getBridgeInfoFromCNIConfig_range pre ([], None) = (b0, None)"
    using range_wellformed_error [OF assms(1), of "[]" None]
    by (cases "getBridgeInfoFromCNIConfig_range pre ([], None)") simp
  show ?thesis
    unfolding getBridgeInfoFromCNIConfig_def range_append pre
    using assms(2) by (simp add: range_Cons range_Nil cni_step_Some)
qed

lemma localBridges_range_dom:
  "dom (map_of (localBridges_range localNetworks localBridges)) =
     dom (map_of localBridges) \<union>
     {b. \<exists>n \<in> set localNetworks. \<exists>cniConf.
           asMap (lookup (Network_Metadata n) ''cniConfig'') = Some cniConf \<and>
           getBridgeInfoFromCNIConfig cniConf = (b, None)}"
proof (induction localNetworks arbitrary: localBridges)
  case Nil
  then show ?case by simp
next
  case (Cons n localNetworks)
  show ?case
  proof (cases "asMap (lookup (Network_Metadata n) ''cniConfig'')")
    case None
    then show ?thesis using Cons.IH [of localBridges] by auto
  next
    case (Some cniConf)
    obtain b lastErr where r: "getBridgeInfoFromCNIConfig cniConf = (b, lastErr)"
      by (cases "getBridgeInfoFromCNIConfig cniConf")
    show ?thesis
    proof (cases lastErr)
      case None
      then show ?thesis
        using Some r Cons.IH [of "AList.update b True localBridges"]
        by (auto simp: map_of_update split: if_splits)
    next
      case (Some err)
      then show ?thesis
        using \<open>asMap (lookup (Network_Metadata n) ''cniConfig'') = Some cniConf\<close> r
          Cons.IH [of localBridges]
        by auto
    qed
  qed
qed

lemma cni_step_with_type: "cni_step (with_type ty config) acc = cni_step config acc"
  by (cases config) (simp_all add: cni_step_def lookup_def map_of_update)

lemma range_with_type:
  "getBridgeInfoFromCNIConfig_range (map (\<lambda>e. (fst e, with_type ty (snd e))) cniConf) acc =
     getBridgeInfoFromCNIConfig_range cniConf acc"
  by (induction cniConf arbitrary: acc) (simp_all add: range_Nil range_Cons cni_step_with_type)

text \<open>
  Claim C6, as stated, on a CNI config with two entries, one with the bridge
  \<^verbatim>\<open>docker0\<close> and a loopback entry without a bridge: in either order of iteration the
  discovery returns an error, and the network contributes no local bridge.
\<close>

theorem bridge_discovery_counterexample:
  "bridge_of (JMap [(''type'', JString ''rancher-bridge''), (''bridge'', JString ''docker0'')]) =
     Some ''docker0'' \<and>
   getBridgeInfoFromCNIConfig
     [(''10-rancher.conf'',
       JMap [(''type'', JString ''rancher-bridge''), (''bridge'', JString ''docker0'')]),
      (''99-loopback.conf'', JMap [(''type'', JString ''loopback'')])] =
     ([], Some (Err ''error getting bridge from cni config'')) \<and>
   getBridgeInfoFromCNIConfig
     [(''99-loopback.conf'', JMap [(''type'', JString ''loopback'')]),
      (''10-rancher.conf'',
       JMap [(''type'', JString ''rancher-bridge''), (''bridge'', JString ''docker0'')])] =
     (''docker0'', Some (Err ''error getting bridge from cni config'')) \<and>
   localBridges_range
     [\<lparr>Network_UUID = ''N'',
       Network_Metadata =
         [(''cniConfig'',
           JMap [(''10-rancher.conf'',
                  JMap [(''type'', JString ''rancher-bridge''), (''bridge'', JString ''docker0'')]),
                 (''99-loopback.conf'', JMap [(''type'', JString ''loopback'')])])]\<rparr>] [] = []"
  by code_simp

text \<open>
  Claim C6, amended. The discovery reads the \<^verbatim>\<open>bridge\<close> fields only: changing the
  \<^verbatim>\<open>type\<close> fields changes nothing. It returns without error exactly when every entry
  of the CNI config is a mapping with a string \<^verbatim>\<open>bridge\<close> field, and then the bridge
  it returns is that of the entry visited last; for a config of one such entry, that
  entry's bridge. The local-bridge set of the host view is the set of the names so
  returned without error, over the local networks whose \<^verbatim>\<open>cniConfig\<close> is a mapping.
\<close>

theorem bridge_discovery:
  "((\<forall>e \<in> set pre. bridge_of (snd e) \<noteq> None) \<and> bridge_of config = Some b \<longrightarrow>
      getBridgeInfoFromCNIConfig (pre @ [(name, config)]) = (b, None)) \<and>
   (snd (getBridgeInfoFromCNIConfig cniConf) = None) =
     (\<forall>e \<in> set cniConf. bridge_of (snd e) \<noteq> None) \<and>
   getBridgeInfoFromCNIConfig (map (\<lambda>e. (fst e, with_type ty (snd e))) cniConf) =
     getBridgeInfoFromCNIConfig cniConf \<and>
   dom (map_of (localBridges_range localNetworks [])) =
     {b. \<exists>n \<in> set localNetworks. \<exists>cniConf.
           asMap (lookup (Network_Metadata n) ''cniConfig'') = Some cniConf \<and>
           getBridgeInfoFromCNIConfig cniConf = (b, None)}"
  using last_bridge [of pre config b name] range_error_iff [of cniConf "[]"]
    localBridges_range_dom [of localNetworks "[]"]
    range_with_type [of ty cniConf "([], None)"]
  by (simp add: getBridgeInfoFromCNIConfig_def)

theorem bridge_discovery_witness:
  "getBridgeInfoFromCNIConfig
     [(''10-rancher.conf'', JMap [(''type'', JString ''macvlan''), (''bridge'', JString ''br0'')]),
      (''20-other.conf'', JMap [(''bridge'', JString ''docker0'')])] = (''docker0'', None) \<and>
   getBridgeInfoFromCNIConfig
     [(''10-rancher.conf'', JMap [(''type'', JString ''macvlan''), (''bridge'', JString ''br0'')])] =
     (''br0'', None)"
proof -
  let ?a = "JMap [(''type'', JString ''macvlan''), (''bridge'', JString ''br0'')]"
  let ?b = "JMap [(''bridge'', JString ''docker0'')]"
  have a: "bridge_of ?a = Some ''br0''"
    by code_simp
  have b: "bridge_of ?b = Some ''docker0''"
    by code_simp
  show ?thesis
    using a b
      bridge_discovery [of "[(''10-rancher.conf'', ?a)]" ?b "''docker0''" "''20-other.conf''" "[]"]
      bridge_discovery [of "[]" ?a "''br0''" "''10-rancher.conf''" "[]"]
    by simp
qed

section \<open>Decimal strings and the second step\<close>















section \<open>A second step after a successful one\<close>




end
